theory Spec2Isabelle
  imports Main "HOL-Library.AList"
begin

section \<open>Python values, exceptions and the world the handlers run in\<close>

text \<open>
  The service (\<^verbatim>\<open>src/app.py\<close>) is a Flask application with three POST handlers
  (\<^verbatim>\<open>/search\<close>, \<^verbatim>\<open>/info\<close>, \<^verbatim>\<open>/download\<close>), a file
  release function \<^verbatim>\<open>cleanup_file\<close> and a sweep of the download directory at
  start. The handlers work on JSON-like Python values, so the model has one type of such
  values. Strings are lists of characters; a dict is an association list in insertion
  order, read with \<open>map_of\<close>. \<open>PFloat m e\<close> is the finite float \<open>m * 2 ^ e\<close>.
\<close>

datatype pyval =
    PNone
  | PBool bool
  | PInt int
  | PFloat int int
  | PStr string
  | PList "pyval list"
  | PDict "(string \<times> pyval) list"

text \<open>
  The exceptions the modelled code can meet. \<open>DownloadError\<close> stands for whatever the
  extractor (yt-dlp) raises, with its message.
\<close>

datatype py_error =
    AttributeError
  | TypeError
  | IndexError
  | KeyError
  | OSError
  | ValueError
  | DownloadError string

datatype level = INFO | WARNING | ERROR

text \<open>
  What a run leaves behind besides its return value: log records, and one \<open>Extract\<close>
  record for each call \<^verbatim>\<open>YoutubeDL(opts).extract_info(target, download=d)\<close>.
  \<open>LogExc l msg e\<close> is a log record whose text is \<open>msg\<close> followed by \<^verbatim>\<open>str(e)\<close>.
\<close>

datatype event =
    Log level string
  | LogExc level string py_error
  | Extract "(string \<times> pyval) list" string bool

text \<open>
  The file system as the program sees it: \<open>present\<close> lists the paths for which
  \<^verbatim>\<open>os.path.exists\<close> holds, \<open>undeletable\<close> the paths on which
  \<^verbatim>\<open>os.remove\<close> raises (a directory, a file without permission).
\<close>

record world =
  present :: "string list"
  undeletable :: "string list"
  events :: "event list"

definition logger :: "level \<Rightarrow> string \<Rightarrow> world \<Rightarrow> world" where
  "logger l msg w = w\<lparr>events := events w @ [Log l msg]\<rparr>"

definition logger_exc :: "level \<Rightarrow> string \<Rightarrow> py_error \<Rightarrow> world \<Rightarrow> world" where
  "logger_exc l msg e w = w\<lparr>events := events w @ [LogExc l msg e]\<rparr>"

definition os_path_exists :: "world \<Rightarrow> string \<Rightarrow> bool" where
  "os_path_exists w p = (p \<in> set (present w))"

text \<open>\<^verbatim>\<open>os.remove(p)\<close>: removes the path, or raises \<open>OSError\<close> and changes nothing.\<close>

definition os_remove :: "string \<Rightarrow> world \<Rightarrow> (py_error + unit) \<times> world" where
  "os_remove p w =
     (if p \<in> set (present w) \<and> p \<notin> set (undeletable w)
      then (Inr (), w\<lparr>present := removeAll p (present w)\<rparr>)
      else (Inl OSError, w))"

subsection \<open>The Python operations the handlers use\<close>

text \<open>Truth value of a value, as \<^verbatim>\<open>if v\<close>, \<^verbatim>\<open>not v\<close> and \<^verbatim>\<open>a or b\<close> test it.\<close>

fun truthy :: "pyval \<Rightarrow> bool" where
  "truthy PNone = False"
| "truthy (PBool b) = b"
| "truthy (PInt i) = (i \<noteq> 0)"
| "truthy (PFloat m e) = (m \<noteq> 0)"
| "truthy (PStr s) = (s \<noteq> [])"
| "truthy (PList xs) = (xs \<noteq> [])"
| "truthy (PDict kvs) = (kvs \<noteq> [])"

text \<open>Sequencing of computations that may raise: the first exception wins.\<close>

definition bindE :: "py_error + 'a \<Rightarrow> ('a \<Rightarrow> py_error + 'b) \<Rightarrow> py_error + 'b" where
  "bindE m f = (case m of Inl e \<Rightarrow> Inl e | Inr v \<Rightarrow> f v)"

text \<open>\<^verbatim>\<open>d.get(k, dflt)\<close>: only a dict has the method.\<close>

definition dict_get :: "pyval \<Rightarrow> string \<Rightarrow> pyval \<Rightarrow> py_error + pyval" where
  "dict_get d k dflt =
     (case d of
        PDict kvs \<Rightarrow> Inr (case map_of kvs k of Some v \<Rightarrow> v | None \<Rightarrow> dflt)
      | _ \<Rightarrow> Inl AttributeError)"

text \<open>\<^verbatim>\<open>d[k]\<close> with a string key.\<close>

definition subscript :: "pyval \<Rightarrow> string \<Rightarrow> py_error + pyval" where
  "subscript d k =
     (case d of
        PDict kvs \<Rightarrow> (case map_of kvs k of Some v \<Rightarrow> Inr v | None \<Rightarrow> Inl KeyError)
      | _ \<Rightarrow> Inl TypeError)"

text \<open>
  \<^verbatim>\<open>v[-1]\<close>: the last element of a list or string, \<open>IndexError\<close> when it is empty;
  a dict has no key \<open>-1\<close> (its keys are strings); the other values are not subscriptable.
\<close>

definition index_last :: "pyval \<Rightarrow> py_error + pyval" where
  "index_last v =
     (case v of
        PList xs \<Rightarrow> (if xs = [] then Inl IndexError else Inr (last xs))
      | PStr s \<Rightarrow> (if s = [] then Inl IndexError else Inr (PStr [last s]))
      | PDict kvs \<Rightarrow> Inl KeyError
      | _ \<Rightarrow> Inl TypeError)"

text \<open>\<^verbatim>\<open>v[:50]\<close>; a dict raises too (the model says \<open>TypeError\<close>).\<close>

definition slice50 :: "pyval \<Rightarrow> py_error + pyval" where
  "slice50 v =
     (case v of
        PStr s \<Rightarrow> Inr (PStr (take 50 s))
      | PList xs \<Rightarrow> Inr (PList (take 50 xs))
      | _ \<Rightarrow> Inl TypeError)"

text \<open>\<^verbatim>\<open>for v in vs\<close>: the elements visited.\<close>

definition py_iter :: "pyval \<Rightarrow> py_error + pyval list" where
  "py_iter v =
     (case v of
        PList xs \<Rightarrow> Inr xs
      | PDict kvs \<Rightarrow> Inr (map (\<lambda>kv. PStr (fst kv)) kvs)
      | PStr s \<Rightarrow> Inr (map (\<lambda>c. PStr [c]) s)
      | _ \<Rightarrow> Inl TypeError)"

text \<open>
  \<^verbatim>\<open>str.strip()\<close> removes leading and trailing whitespace; strings here are ASCII, where
  \<^verbatim>\<open>str.isspace\<close> holds of the codes 9 to 13, 28 to 31 and 32.
\<close>

definition py_isspace :: "char \<Rightarrow> bool" where
  "py_isspace c =
     (let n = (of_char c :: nat) in (9 \<le> n \<and> n \<le> 13) \<or> (28 \<le> n \<and> n \<le> 32))"

definition strip :: "string \<Rightarrow> string" where
  "strip s = dropWhile py_isspace (rev (dropWhile py_isspace (rev s)))"

definition str_strip :: "pyval \<Rightarrow> py_error + string" where
  "str_strip v = (case v of PStr s \<Rightarrow> Inr (strip s) | _ \<Rightarrow> Inl AttributeError)"

text \<open>
  \<^verbatim>\<open>str(v)\<close>, as an f-string renders a value. The rendering of numbers and containers is
  Python's \<^verbatim>\<open>repr\<close>, taken as the parameter \<open>r\<close>.
\<close>

definition py_str :: "(pyval \<Rightarrow> string) \<Rightarrow> pyval \<Rightarrow> string" where
  "py_str r v =
     (case v of
        PStr s \<Rightarrow> s
      | PNone \<Rightarrow> ''None''
      | PBool b \<Rightarrow> (if b then ''True'' else ''False'')
      | _ \<Rightarrow> r v)"

text \<open>\<^verbatim>\<open>d in s\<close> on strings: \<open>d\<close> occurs in \<open>s\<close> as a contiguous substring.\<close>

fun contains :: "string \<Rightarrow> string \<Rightarrow> bool" where
  "contains d [] = (d = [])"
| "contains d (c # cs) = (take (length d) (c # cs) = d \<or> contains d cs)"

text \<open>\<^verbatim>\<open>posixpath.join(a, b)\<close> and \<^verbatim>\<open>posixpath.splitext(p)\<close>.\<close>

definition os_path_join :: "string \<Rightarrow> string \<Rightarrow> string" where
  "os_path_join a b =
     (if take 1 b = ''/'' then b
      else if a = [] \<or> last a = CHR ''/'' then a @ b
      else a @ ''/'' @ b)"

text \<open>
  \<^verbatim>\<open>splitext\<close> cuts at the last dot of the last path component, unless only dots
  precede it there: \<open>base\<close> is the part after the last \<open>/\<close>, \<open>ext\<close> the part of
  \<open>base\<close> after its last dot, \<open>stem\<close> the part of \<open>base\<close> before that dot.
\<close>

definition os_path_splitext :: "string \<Rightarrow> string \<times> string" where
  "os_path_splitext p =
     (let base = rev (takeWhile (\<lambda>c. c \<noteq> CHR ''/'') (rev p));
          ext = rev (takeWhile (\<lambda>c. c \<noteq> CHR ''.'') (rev base));
          stem = take (length base - length ext - 1) base
      in if CHR ''.'' \<in> set base \<and> list_ex (\<lambda>c. c \<noteq> CHR ''.'') stem
         then (take (length p - length ext - 1) p, CHR ''.'' # ext)
         else (p, []))"

subsection \<open>What the program does not contain\<close>

text \<open>
  The libraries and the environment are parameters of the model:
  \<^item> \<open>urlparse_netloc url\<close> is \<^verbatim>\<open>urlparse(url).netloc\<close>, \<open>None\<close> when
    \<^verbatim>\<open>urlparse\<close> raises;
  \<^item> \<open>py_repr\<close> is Python's \<^verbatim>\<open>repr\<close> of numbers and containers;
  \<^item> \<open>getenv\<close> is \<^verbatim>\<open>os.getenv\<close>;
  \<^item> \<open>py_int s\<close> is \<^verbatim>\<open>int(s)\<close>, \<open>None\<close> when it raises \<open>ValueError\<close>;
  \<^item> \<open>extract_info opts target download files\<close> is
    \<^verbatim>\<open>YoutubeDL(opts).extract_info(target, download=download)\<close> run on a disk holding
    \<open>files\<close>: the value it returns or the exception it raises, and the files afterwards;
  \<^item> \<open>prepare_filename opts info\<close> is \<^verbatim>\<open>YoutubeDL(opts).prepare_filename(info)\<close>.
\<close>

record externals =
  urlparse_netloc :: "string \<Rightarrow> string option"
  py_repr :: "pyval \<Rightarrow> string"
  getenv :: "string \<Rightarrow> string option"
  py_int :: "string \<Rightarrow> int option"
  extract_info ::
    "(string \<times> pyval) list \<Rightarrow> string \<Rightarrow> bool \<Rightarrow> string list \<Rightarrow> (py_error + pyval) \<times> string list"
  prepare_filename :: "(string \<times> pyval) list \<Rightarrow> pyval \<Rightarrow> py_error + string"

definition call_extract_info ::
  "externals \<Rightarrow> (string \<times> pyval) list \<Rightarrow> string \<Rightarrow> bool \<Rightarrow> world \<Rightarrow> (py_error + pyval) \<times> world"
where
  "call_extract_info x opts target download w =
     (case extract_info x opts target download (present w) of
        (r, files) \<Rightarrow>
          (r, w\<lparr>present := files, events := events w @ [Extract opts target download]\<rparr>))"

subsection \<open>Responses\<close>

text \<open>
  \<open>Json v\<close> is \<^verbatim>\<open>jsonify(v)\<close>; \<open>ErrorJson msg d\<close> is
  \<^verbatim>\<open>jsonify({"error": msg})\<close>, with \<^verbatim>\<open>"details": str(e)\<close> when \<open>d = Some e\<close>;
  \<open>FileBody path mimetype download_name\<close> is what \<^verbatim>\<open>send_file\<close> returns;
  \<open>Text s\<close> is a plain string returned by a view.
  \<open>on_close\<close> is the file the callback registered with \<^verbatim>\<open>call_on_close\<close> releases.
\<close>

datatype body =
    Json pyval
  | ErrorJson string "py_error option"
  | FileBody string string string
  | Text string

record response =
  status :: nat
  body :: body
  on_close :: "string option"

definition jsonify :: "nat \<Rightarrow> body \<Rightarrow> response" where
  "jsonify code b = \<lparr>status = code, body = b, on_close = None\<rparr>"

text \<open>\<^verbatim>\<open>send_file\<close> opens the file, so it raises when the file is not there.\<close>

definition send_file :: "world \<Rightarrow> string \<Rightarrow> string \<Rightarrow> string \<Rightarrow> py_error + response" where
  "send_file w filename mimetype download_name =
     (if os_path_exists w filename
      then Inr \<lparr>status = 200, body = FileBody filename mimetype download_name, on_close = None\<rparr>
      else Inl OSError)"

text \<open>
  The calls of the extractor a run has made, oldest first: what a fake extractor that
  records its invocations would hold.
\<close>

fun extract_calls :: "event list \<Rightarrow> ((string \<times> pyval) list \<times> string \<times> bool) list" where
  "extract_calls [] = []"
| "extract_calls (Extract opts target download # es) = (opts, target, download) # extract_calls es"
| "extract_calls (e # es) = extract_calls es"

section \<open>URL validation: \<^verbatim>\<open>is_valid_youtube_url\<close>\<close>

text \<open>
  \<^verbatim>\<open>
  def is_valid_youtube_url(url):
      domains = ['youtube.com', 'youtu.be']
      try:
          parsed = urlparse(url)
          return any(domain in parsed.netloc for domain in domains)
      except:
          return False
  \<close>
\<close>

definition is_valid_youtube_url :: "externals \<Rightarrow> string \<Rightarrow> bool" where
  "is_valid_youtube_url x url =
     (let domains = [''youtube.com'', ''youtu.be''] in
      case urlparse_netloc x url of
        None \<Rightarrow> False
      | Some netloc \<Rightarrow> list_ex (\<lambda>domain. contains domain netloc) domains)"

section \<open>Release of a file: \<^verbatim>\<open>cleanup_file\<close>\<close>

text \<open>
  \<^verbatim>\<open>
  def cleanup_file(filename):
      try:
          if os.path.exists(filename):
              os.remove(filename)
              logger.info(f"Deleted: {filename}")
      except Exception as e:
          logger.error(f"Failed to delete {filename}: {e}")
  \<close>
  The result type keeps the possibility of an exception leaving the function, so that
  "never raises" is a statement about the model and not a consequence of its type.
\<close>

definition cleanup_file :: "string \<Rightarrow> world \<Rightarrow> (py_error + unit) \<times> world" where
  "cleanup_file filename w =
     (case (if os_path_exists w filename
            then (case os_remove filename w of
                    (Inl e, w1) \<Rightarrow> (Inl e, w1)
                  | (Inr u, w1) \<Rightarrow> (Inr (), logger INFO (''Deleted: '' @ filename) w1))
            else (Inr (), w))
      of (Inl e, w2) \<Rightarrow>
           (Inr (), logger_exc ERROR (''Failed to delete '' @ filename @ '': '') e w2)
       | (Inr u, w2) \<Rightarrow> (Inr (), w2))"

section \<open>The handler of \<^verbatim>\<open>POST /search\<close>\<close>

text \<open>
  The dict built for one entry (lines 60 to 67), its items evaluated in the order written:
  \<^verbatim>\<open>
  {'id': video.get('id'), 'title': video.get('title'),
   'url': f"https://youtu.be/{video.get('id')}",
   'duration': video.get('duration'),
   'thumbnail': video.get('thumbnails', [{}])[-1].get('url', ''),
   'channel': video.get('channel') or video.get('uploader', 'Unknown')}
  \<close>
\<close>

definition format_video :: "externals \<Rightarrow> pyval \<Rightarrow> py_error + pyval" where
  "format_video x video =
     bindE (dict_get video ''id'' PNone) (\<lambda>vid.
     bindE (dict_get video ''title'' PNone) (\<lambda>title.
     bindE (dict_get video ''id'' PNone) (\<lambda>url_id.
     bindE (dict_get video ''duration'' PNone) (\<lambda>duration.
     bindE (dict_get video ''thumbnails'' (PList [PDict []])) (\<lambda>thumbnails.
     bindE (index_last thumbnails) (\<lambda>last_thumbnail.
     bindE (dict_get last_thumbnail ''url'' (PStr [])) (\<lambda>thumbnail.
     bindE (dict_get video ''channel'' PNone) (\<lambda>channel.
     bindE (if truthy channel then Inr channel
            else dict_get video ''uploader'' (PStr ''Unknown'')) (\<lambda>channel_or_uploader.
     Inr (PDict
       [(''id'', vid),
        (''title'', title),
        (''url'', PStr (''https://youtu.be/'' @ py_str (py_repr x) url_id)),
        (''duration'', duration),
        (''thumbnail'', thumbnail),
        (''channel'', channel_or_uploader)]))))))))))"

text \<open>
  The loop of lines 56 to 67; the third argument is \<^verbatim>\<open>formatted_videos\<close>.
  \<^verbatim>\<open>
  for video in videos:
      if not video:
          continue
      formatted_videos.append({...})
  \<close>
\<close>

fun format_videos :: "externals \<Rightarrow> pyval list \<Rightarrow> pyval list \<Rightarrow> py_error + pyval list" where
  "format_videos x [] formatted_videos = Inr formatted_videos"
| "format_videos x (video # videos) formatted_videos =
     (if \<not> truthy video then format_videos x videos formatted_videos
      else (case format_video x video of
              Inl e \<Rightarrow> Inl e
            | Inr entry \<Rightarrow> format_videos x videos (formatted_videos @ [entry])))"

definition search_opts :: "(string \<times> pyval) list" where
  "search_opts =
     [(''quiet'', PBool True), (''extract_flat'', PBool True),
      (''default_search'', PStr ''ytsearch20''), (''noplaylist'', PBool True)]"

text \<open>
  \<^verbatim>\<open>search_video\<close>, lines 38 to 73. \<open>data\<close> is \<^verbatim>\<open>request.json\<close>. An exception
  raised before the \<^verbatim>\<open>try\<close> leaves the handler (\<open>Inl\<close>); one raised inside it is
  caught, logged and answered with status 500.
\<close>

definition search_video :: "externals \<Rightarrow> pyval \<Rightarrow> world \<Rightarrow> (py_error + response) \<times> world" where
  "search_video x data w =
     (case bindE (dict_get data ''query'' (PStr [])) str_strip of
        Inl e \<Rightarrow> (Inl e, w)
      | Inr query \<Rightarrow>
          if query = []
          then (Inr (jsonify 400 (ErrorJson ''No search query provided'' None)), w)
          else
            (case call_extract_info x search_opts (''ytsearch20:'' @ query) False w of
               (r, w1) \<Rightarrow>
                 (case bindE r (\<lambda>result.
                       bindE (dict_get result ''entries'' (PList [])) (\<lambda>videos.
                       bindE (py_iter videos) (\<lambda>vs. format_videos x vs []))) of
                    Inr formatted_videos \<Rightarrow>
                      (Inr (jsonify 200 (Json (PList formatted_videos))), w1)
                  | Inl e \<Rightarrow>
                      (Inr (jsonify 500 (ErrorJson ''Search failed'' (Some e))),
                       logger_exc ERROR ''Search failed: '' e w1))))"

section \<open>The handler of \<^verbatim>\<open>POST /info\<close>\<close>

text \<open>
  The dict of one listed encoding (lines 95 to 102):
  \<^verbatim>\<open>
  {'itag': f.get('format_id'), 'ext': f.get('ext'),
   'resolution': f.get('resolution') or f.get('height', 'audio'),
   'filesize': f.get('filesize') or 0,
   'format_note': f.get('format_note', ''), 'url': f.get('url')}
  \<close>
\<close>

definition format_entry :: "pyval \<Rightarrow> py_error + pyval" where
  "format_entry f =
     bindE (dict_get f ''format_id'' PNone) (\<lambda>itag.
     bindE (dict_get f ''ext'' PNone) (\<lambda>ext.
     bindE (dict_get f ''resolution'' PNone) (\<lambda>resolution.
     bindE (if truthy resolution then Inr resolution
            else dict_get f ''height'' (PStr ''audio'')) (\<lambda>resolution_or_height.
     bindE (dict_get f ''filesize'' PNone) (\<lambda>filesize.
     bindE (dict_get f ''format_note'' (PStr [])) (\<lambda>format_note.
     bindE (dict_get f ''url'' PNone) (\<lambda>url.
     Inr (PDict
       [(''itag'', itag),
        (''ext'', ext),
        (''resolution'', resolution_or_height),
        (''filesize'', if truthy filesize then filesize else PInt 0),
        (''format_note'', format_note),
        (''url'', url)]))))))))"

text \<open>
  The test of line 94, \<^verbatim>\<open>f.get('url') and f.get('vcodec') != 'none'\<close>;
  \<^verbatim>\<open>and\<close> does not evaluate its right side when the left is false.
\<close>

definition surfaced :: "pyval \<Rightarrow> py_error + bool" where
  "surfaced f =
     bindE (dict_get f ''url'' PNone) (\<lambda>url.
       if truthy url
       then bindE (dict_get f ''vcodec'' PNone) (\<lambda>vcodec. Inr (vcodec \<noteq> PStr ''none''))
       else Inr False)"

text \<open>The loop of lines 92 to 102; the second argument is \<^verbatim>\<open>formats\<close>.\<close>

fun collect_formats :: "pyval list \<Rightarrow> pyval list \<Rightarrow> py_error + pyval list" where
  "collect_formats [] formats = Inr formats"
| "collect_formats (f # fs) formats =
     (case surfaced f of
        Inl e \<Rightarrow> Inl e
      | Inr False \<Rightarrow> collect_formats fs formats
      | Inr True \<Rightarrow>
          (case format_entry f of
             Inl e \<Rightarrow> Inl e
           | Inr entry \<Rightarrow> collect_formats fs (formats @ [entry])))"

text \<open>The dict of lines 104 to 112.\<close>

definition video_detail :: "pyval \<Rightarrow> pyval list \<Rightarrow> py_error + pyval" where
  "video_detail info formats =
     bindE (dict_get info ''id'' PNone) (\<lambda>vid.
     bindE (dict_get info ''title'' PNone) (\<lambda>title.
     bindE (dict_get info ''webpage_url'' PNone) (\<lambda>url.
     bindE (dict_get info ''duration'' PNone) (\<lambda>duration.
     bindE (dict_get info ''thumbnail'' PNone) (\<lambda>thumbnail.
     bindE (dict_get info ''channel'' PNone) (\<lambda>channel.
     bindE (if truthy channel then Inr channel
            else dict_get info ''uploader'' (PStr [])) (\<lambda>channel_or_uploader.
     Inr (PDict
       [(''id'', vid),
        (''title'', title),
        (''url'', url),
        (''duration'', duration),
        (''thumbnail'', thumbnail),
        (''channel'', channel_or_uploader),
        (''formats'', PList formats)]))))))))"

definition info_opts :: "(string \<times> pyval) list" where
  "info_opts =
     [(''quiet'', PBool True), (''skip_download'', PBool True), (''noplaylist'', PBool True)]"

text \<open>\<^verbatim>\<open>get_video_info\<close>, lines 76 to 116.\<close>

definition get_video_info :: "externals \<Rightarrow> pyval \<Rightarrow> world \<Rightarrow> (py_error + response) \<times> world" where
  "get_video_info x data w =
     (case bindE (dict_get data ''url'' (PStr [])) str_strip of
        Inl e \<Rightarrow> (Inl e, w)
      | Inr url \<Rightarrow>
          if url = [] \<or> \<not> is_valid_youtube_url x url
          then (Inr (jsonify 400 (ErrorJson ''Invalid YouTube URL'' None)), w)
          else
            (case call_extract_info x info_opts url False w of
               (r, w1) \<Rightarrow>
                 (case bindE r (\<lambda>info.
                       bindE (dict_get info ''formats'' (PList [])) (\<lambda>fl.
                       bindE (py_iter fl) (\<lambda>fs.
                       bindE (collect_formats fs []) (\<lambda>formats.
                       video_detail info formats)))) of
                    Inr detail \<Rightarrow> (Inr (jsonify 200 (Json detail)), w1)
                  | Inl e \<Rightarrow>
                      (Inr (jsonify 500 (ErrorJson ''Could not fetch video info'' None)),
                       logger_exc ERROR ''Info fetch failed: '' e w1))))"

section \<open>The handler of \<^verbatim>\<open>POST /download\<close>\<close>

definition DOWNLOADS_DIR :: string where
  "DOWNLOADS_DIR = ''temp_downloads''"

text \<open>\<^verbatim>\<open>if cookies_path\<close>: the variable is set and not the empty string.\<close>

definition is_set :: "string option \<Rightarrow> bool" where
  "is_set cookies_path = (case cookies_path of None \<Rightarrow> False | Some p \<Rightarrow> p \<noteq> [])"

definition path_of :: "string option \<Rightarrow> string" where
  "path_of cookies_path = (case cookies_path of None \<Rightarrow> [] | Some p \<Rightarrow> p)"

text \<open>
  Lines 130 to 136: what is logged about \<^verbatim>\<open>COOKIES_FILE\<close> before the
  \<^verbatim>\<open>try\<close>.
\<close>

definition log_cookie_env :: "string option \<Rightarrow> world \<Rightarrow> world" where
  "log_cookie_env cookies_path w =
     (let w1 =
        (if is_set cookies_path
         then logger INFO
                (''Environment variable COOKIES_FILE is set to: '' @ path_of cookies_path) w
         else logger WARNING ''Environment variable COOKIES_FILE not set.'' w)
      in if is_set cookies_path \<and> \<not> os_path_exists w1 (path_of cookies_path)
         then logger WARNING
                (''Cookie file not found at '' @ path_of cookies_path
                   @ ''. YouTube may require login.'') w1
         else w1)"

text \<open>Lines 139 to 149: the options every download starts from, and the cookie file.\<close>

definition base_opts :: "(string \<times> pyval) list" where
  "base_opts =
     [(''outtmpl'', PStr (os_path_join DOWNLOADS_DIR ''%(id)s.%(ext)s'')),
      (''quiet'', PBool True), (''noplaylist'', PBool True)]"

definition cookie_opts :: "string option \<Rightarrow> world \<Rightarrow> (string \<times> pyval) list \<times> world" where
  "cookie_opts cookies_path w =
     (if is_set cookies_path \<and> os_path_exists w (path_of cookies_path)
      then (AList.update ''cookiefile'' (PStr (path_of cookies_path)) base_opts,
            logger INFO (''Using cookies from: '' @ path_of cookies_path) w)
      else (base_opts,
            logger WARNING
              ''No valid cookies file found. Some downloads may fail due to bot detection.'' w))"

text \<open>
  Lines 151 to 163: the choice of the format.
  \<^verbatim>\<open>
  if format_type == "mp3":
      ydl_opts.update({'format': 'bestaudio/best', 'postprocessors': [{...}]})
  elif itag:
      ydl_opts['format'] = itag
  else:
      ydl_opts['format'] = 'bestvideo[ext=mp4]+bestaudio[ext=m4a]/best[ext=mp4]'
  \<close>
\<close>

definition audio_postprocessors :: pyval where
  "audio_postprocessors =
     PList [PDict [(''key'', PStr ''FFmpegExtractAudio''),
                   (''preferredcodec'', PStr ''mp3''),
                   (''preferredquality'', PStr ''192'')]]"

definition format_opts :: "pyval \<Rightarrow> pyval \<Rightarrow> (string \<times> pyval) list \<Rightarrow> (string \<times> pyval) list" where
  "format_opts format_type itag ydl_opts =
     (if format_type = PStr ''mp3''
      then AList.update ''postprocessors'' audio_postprocessors
             (AList.update ''format'' (PStr ''bestaudio/best'') ydl_opts)
      else if truthy itag
      then AList.update ''format'' itag ydl_opts
      else AList.update ''format''
             (PStr ''bestvideo[ext=mp4]+bestaudio[ext=m4a]/best[ext=mp4]'') ydl_opts)"

text \<open>
  Lines 167 to 169: the path that is streamed.
  \<^verbatim>\<open>
  filename = ydl.prepare_filename(info)
  if format_type == "mp3":
      filename = os.path.splitext(filename)[0] + '.mp3'
  \<close>
\<close>

definition final_path :: "pyval \<Rightarrow> string \<Rightarrow> string" where
  "final_path format_type filename =
     (if format_type = PStr ''mp3'' then fst (os_path_splitext filename) @ ''.mp3''
      else filename)"

text \<open>
  Lines 165 to 182, the rest of the \<^verbatim>\<open>try\<close> block once \<^verbatim>\<open>extract_info\<close>
  has returned \<open>r\<close>. The arguments of \<^verbatim>\<open>send_file\<close> are evaluated before the call, so
  a missing title raises before any file is opened.
\<close>

definition stream_result ::
  "externals \<Rightarrow> (string \<times> pyval) list \<Rightarrow> pyval \<Rightarrow> world \<Rightarrow> py_error + pyval \<Rightarrow> py_error + response"
where
  "stream_result x ydl_opts format_type w r =
     bindE r (\<lambda>info.
     bindE (prepare_filename x ydl_opts info) (\<lambda>prepared.
     bindE (Inr (final_path format_type prepared)) (\<lambda>filename.
     bindE (subscript info ''title'') (\<lambda>title.
     bindE (slice50 title) (\<lambda>title50.
     bindE (send_file w filename
              (if format_type = PStr ''mp3'' then ''audio/mp3'' else ''video/mp4'')
              (py_str (py_repr x) title50 @ ''.'' @ py_str (py_repr x) format_type))
       (\<lambda>response. Inr (response\<lparr>on_close := Some filename\<rparr>)))))))"

text \<open>Lines 120 to 123: the fields read from the request.\<close>

definition download_args :: "pyval \<Rightarrow> py_error + string \<times> pyval \<times> pyval" where
  "download_args data =
     bindE (dict_get data ''url'' (PStr [])) (\<lambda>u.
     bindE (str_strip u) (\<lambda>url.
     bindE (dict_get data ''format'' (PStr ''mp4'')) (\<lambda>format_type.
     bindE (dict_get data ''itag'' PNone) (\<lambda>itag.
     Inr (url, format_type, itag)))))"

text \<open>\<^verbatim>\<open>download_video\<close>, lines 119 to 186.\<close>

definition download_video :: "externals \<Rightarrow> pyval \<Rightarrow> world \<Rightarrow> (py_error + response) \<times> world" where
  "download_video x data w =
     (case download_args data of
        Inl e \<Rightarrow> (Inl e, w)
      | Inr (url, format_type, itag) \<Rightarrow>
          if url = [] \<or> \<not> is_valid_youtube_url x url
          then (Inr (jsonify 400 (ErrorJson ''Invalid YouTube URL'' None)), w)
          else
            (let cookies_path = getenv x ''COOKIES_FILE'';
                 w1 = log_cookie_env cookies_path w;
                 (opts, w2) = cookie_opts cookies_path w1;
                 ydl_opts = format_opts format_type itag opts
             in case call_extract_info x ydl_opts url True w2 of
                  (r, w3) \<Rightarrow>
                    (case stream_result x ydl_opts format_type w3 r of
                       Inr response \<Rightarrow> (Inr response, w3)
                     | Inl e \<Rightarrow>
                         (Inr (jsonify 500 (ErrorJson ''Download failed'' (Some e))),
                          logger_exc ERROR ''Download failed: '' e w3))))"

section \<open>Requests, the closing of a response, and start\<close>

text \<open>
  The liveness text of \<^verbatim>\<open>GET /\<close>, in UTF-8: it has a right single quotation mark
  and a check mark.
\<close>

definition home :: response where
  "home =
     \<lparr>status = 200,
      body = Text (''Meiser'' @ [CHR 0xE2, CHR 0x80, CHR 0x99] @ ''s YT Backend Running ''
                    @ [CHR 0xE2, CHR 0x9C, CHR 0x85]),
      on_close = None\<rparr>"

datatype request =
    POST_search pyval
  | POST_info pyval
  | POST_download pyval
  | GET_home

definition dispatch :: "externals \<Rightarrow> request \<Rightarrow> world \<Rightarrow> (py_error + response) \<times> world" where
  "dispatch x req w =
     (case req of
        POST_search data \<Rightarrow> search_video x data w
      | POST_info data \<Rightarrow> get_video_info x data w
      | POST_download data \<Rightarrow> download_video x data w
      | GET_home \<Rightarrow> (Inr home, w))"

text \<open>
  When the response has been sent the server closes it, which runs the callback
  registered with \<^verbatim>\<open>call_on_close\<close>: \<^verbatim>\<open>cleanup_file(filename)\<close>.
\<close>

definition close_response :: "response \<Rightarrow> world \<Rightarrow> (py_error + unit) \<times> world" where
  "close_response resp w =
     (case on_close resp of None \<Rightarrow> (Inr (), w) | Some filename \<Rightarrow> cleanup_file filename w)"

text \<open>One request from arrival to the closing of its response.\<close>

definition serve :: "externals \<Rightarrow> request \<Rightarrow> world \<Rightarrow> (py_error + response) \<times> world" where
  "serve x req w =
     (case dispatch x req w of
        (Inl e, w1) \<Rightarrow> (Inl e, w1)
      | (Inr resp, w1) \<Rightarrow>
          (case close_response resp w1 of
             (Inl e, w2) \<Rightarrow> (Inl e, w2)
           | (Inr u, w2) \<Rightarrow> (Inr resp, w2)))"

text \<open>
  \<^verbatim>\<open>app.run\<close> on the requests that arrive, one after the other; a handler that raises
  is answered by Flask and the service goes on.
\<close>

fun app_run :: "externals \<Rightarrow> request list \<Rightarrow> world \<Rightarrow> (py_error + response) list \<times> world" where
  "app_run x [] w = ([], w)"
| "app_run x (req # reqs) w =
     (case serve x req w of
        (r, w1) \<Rightarrow> (case app_run x reqs w1 of (rs, w2) \<Rightarrow> (r # rs, w2)))"

text \<open>
  \<^verbatim>\<open>os.listdir(d)\<close> for a directory that exists (line 19 has created the download
  directory): the names \<open>n\<close> of the paths \<open>d/n\<close> on the disk.
\<close>

definition child_name :: "string \<Rightarrow> string \<Rightarrow> string option" where
  "child_name d p =
     (let n = drop (length d + 1) p in
      if take (length d + 1) p = d @ ''/'' \<and> n \<noteq> [] \<and> CHR ''/'' \<notin> set n
      then Some n else None)"

definition os_listdir :: "world \<Rightarrow> string \<Rightarrow> string list" where
  "os_listdir w d = List.map_filter (child_name d) (present w)"

text \<open>
  Lines 192 to 196.
  \<^verbatim>\<open>
  if __name__ == '__main__':
      for filename in os.listdir(DOWNLOADS_DIR):
          cleanup_file(os.path.join(DOWNLOADS_DIR, filename))
      port = int(os.environ.get('PORT', 5000))
      app.run(host='0.0.0.0', port=port)
  \<close>
\<close>

fun sweep :: "string list \<Rightarrow> world \<Rightarrow> (py_error + unit) \<times> world" where
  "sweep [] w = (Inr (), w)"
| "sweep (filename # filenames) w =
     (case cleanup_file (os_path_join DOWNLOADS_DIR filename) w of
        (Inl e, w1) \<Rightarrow> (Inl e, w1)
      | (Inr u, w1) \<Rightarrow> sweep filenames w1)"

definition startup_sweep :: "world \<Rightarrow> (py_error + unit) \<times> world" where
  "startup_sweep w = sweep (os_listdir w DOWNLOADS_DIR) w"

definition read_port :: "externals \<Rightarrow> py_error + int" where
  "read_port x =
     (case getenv x ''PORT'' of
        None \<Rightarrow> Inr 5000
      | Some s \<Rightarrow> (case py_int x s of None \<Rightarrow> Inl ValueError | Some n \<Rightarrow> Inr n))"

definition main ::
  "externals \<Rightarrow> request list \<Rightarrow> world \<Rightarrow> (py_error + (py_error + response) list) \<times> world"
where
  "main x reqs w =
     (case startup_sweep w of
        (Inl e, w1) \<Rightarrow> (Inl e, w1)
      | (Inr u, w1) \<Rightarrow>
          (case read_port x of
             Inl e \<Rightarrow> (Inl e, w1)
           | Inr port \<Rightarrow> (case app_run x reqs w1 of (rs, w2) \<Rightarrow> (Inr rs, w2))))"

section \<open>Example inputs\<close>

text \<open>
  A stand-in for the libraries, used to run the model on concrete requests: a table of
  \<^verbatim>\<open>urlparse(url).netloc\<close> for three URLs, and an extractor that knows one video.
\<close>

definition demo_netloc :: "string \<Rightarrow> string option" where
  "demo_netloc url =
     (if url = ''https://youtu.be/abc123'' then Some ''youtu.be''
      else if url = ''https://example.com/watch?v=abc123'' then Some ''example.com''
      else Some [])"

definition demo_formats :: "pyval list" where
  "demo_formats =
     [PDict [(''format_id'', PStr ''sb0''), (''ext'', PStr ''mhtml''),
             (''vcodec'', PStr ''none'')],
      PDict [(''format_id'', PStr ''140''), (''ext'', PStr ''m4a''),
             (''url'', PStr ''https://cdn.example/140''), (''vcodec'', PStr ''none'')],
      PDict [(''format_id'', PStr ''18''), (''ext'', PStr ''mp4''),
             (''url'', PStr ''https://cdn.example/18'')],
      PDict [(''format_id'', PStr ''22''), (''ext'', PStr ''mp4''),
             (''resolution'', PStr ''1280x720''), (''filesize'', PInt 1000),
             (''url'', PStr ''https://cdn.example/22''), (''vcodec'', PStr ''avc1'')]]"

definition demo_info :: pyval where
  "demo_info =
     PDict [(''id'', PStr ''abc123''), (''title'', PStr ''Lofi beats''),
            (''webpage_url'', PStr ''https://www.youtube.com/watch?v=abc123''),
            (''duration'', PInt 212), (''uploader'', PStr ''Chill''),
            (''formats'', PList demo_formats)]"

definition demo_search_result :: pyval where
  "demo_search_result =
     PDict [(''entries'',
       PList [PDict [(''id'', PStr ''abc123''), (''title'', PStr ''Lofi beats''),
                     (''thumbnails'', PList [PDict [(''url'', PStr ''https://i.example/1.jpg'')]]),
                     (''channel'', PStr ''Chill'')],
              PNone,
              PDict [(''id'', PStr ''def456''), (''title'', PStr ''Rain''),
                     (''duration'', PInt 3600)]])]"

text \<open>
  The extractor of the examples. A download leaves the finished file in the download
  directory: \<open>abc123.mp3\<close> when audio extraction was asked for, \<open>abc123.mp4\<close>
  otherwise; \<^verbatim>\<open>prepare_filename\<close> names the file by the extension of the stream that
  was fetched.
\<close>

definition demo_extract ::
  "(string \<times> pyval) list \<Rightarrow> string \<Rightarrow> bool \<Rightarrow> string list \<Rightarrow> (py_error + pyval) \<times> string list"
where
  "demo_extract opts target download files =
     (if download
      then (Inr demo_info,
            files @ [if map_of opts ''postprocessors'' = None
                     then ''temp_downloads/abc123.mp4'' else ''temp_downloads/abc123.mp3''])
      else if target = ''ytsearch20:lofi'' then (Inr demo_search_result, files)
      else (Inr demo_info, files))"

definition demo_prepare :: "(string \<times> pyval) list \<Rightarrow> pyval \<Rightarrow> py_error + string" where
  "demo_prepare opts info =
     (if map_of opts ''postprocessors'' = None
      then Inr ''temp_downloads/abc123.mp4'' else Inr ''temp_downloads/abc123.m4a'')"

definition demo_externals :: externals where
  "demo_externals =
     \<lparr>urlparse_netloc = demo_netloc, py_repr = (\<lambda>v. ''?''), getenv = (\<lambda>k. None),
      py_int = (\<lambda>s. None), extract_info = demo_extract, prepare_filename = demo_prepare\<rparr>"

text \<open>
  An extractor whose post-processing fails (no ffmpeg on the machine): the stream has
  been written to the download directory when the exception is raised.
\<close>

definition no_ffmpeg_extract ::
  "(string \<times> pyval) list \<Rightarrow> string \<Rightarrow> bool \<Rightarrow> string list \<Rightarrow> (py_error + pyval) \<times> string list"
where
  "no_ffmpeg_extract opts target download files =
     (Inl (DownloadError ''ffprobe and ffmpeg not found''),
      files @ [''temp_downloads/abc123.m4a''])"

definition no_ffmpeg_externals :: externals where
  "no_ffmpeg_externals = demo_externals\<lparr>extract_info := no_ffmpeg_extract\<rparr>"

text \<open>An extractor that answers a search with 21 entries, none of which has an id.\<close>

definition untitled :: pyval where
  "untitled = PDict [(''title'', PStr ''untitled'')]"

definition bulk_extract ::
  "(string \<times> pyval) list \<Rightarrow> string \<Rightarrow> bool \<Rightarrow> string list \<Rightarrow> (py_error + pyval) \<times> string list"
where
  "bulk_extract opts target download files =
     (Inr (PDict [(''entries'', PList (replicate 21 untitled))]), files)"

definition bulk_externals :: externals where
  "bulk_externals = demo_externals\<lparr>extract_info := bulk_extract\<rparr>"

definition empty_disk :: world where
  "empty_disk = \<lparr>present = [], undeletable = [], events = []\<rparr>"

definition demo_world :: world where
  "demo_world =
     \<lparr>present = [''temp_downloads/abc123.mp3'', ''temp_downloads/other.mp4''],
      undeletable = [], events = []\<rparr>"

definition mp3_request :: pyval where
  "mp3_request = PDict [(''url'', PStr ''https://youtu.be/abc123''), (''format'', PStr ''mp3'')]"

definition url_request :: pyval where
  "url_request = PDict [(''url'', PStr '' https://youtu.be/abc123 '')]"

definition foreign_request :: pyval where
  "foreign_request = PDict [(''url'', PStr ''https://example.com/watch?v=abc123'')]"

definition mp3_response :: response where
  "mp3_response =
     \<lparr>status = 200,
      body = FileBody ''temp_downloads/abc123.mp3'' ''audio/mp3'' ''Lofi beats.mp3'',
      on_close = Some ''temp_downloads/abc123.mp3''\<rparr>"

definition itag_request :: pyval where
  "itag_request =
     PDict [(''url'', PStr ''https://youtu.be/abc123''), (''format'', PStr ''mp3''),
            (''itag'', PStr ''22'')]"

definition cookie_externals :: externals where
  "cookie_externals =
     demo_externals
       \<lparr>getenv := (\<lambda>k. if k = ''COOKIES_FILE'' then Some ''/etc/secrets/cookies.txt'' else None)\<rparr>"

text \<open>A search result in which one entry has an empty list of thumbnails.\<close>

definition bad_thumbnail_result :: pyval where
  "bad_thumbnail_result =
     PDict [(''entries'',
       PList [PDict [(''id'', PStr ''abc123''), (''title'', PStr ''Lofi beats'')],
              PDict [(''id'', PStr ''def456''), (''title'', PStr ''Rain''),
                     (''thumbnails'', PList [])],
              PDict [(''id'', PStr ''ghi789''), (''title'', PStr ''Waves'')]])]"

definition bad_thumbnail_externals :: externals where
  "bad_thumbnail_externals =
     demo_externals\<lparr>extract_info := (\<lambda>opts target download files. (Inr bad_thumbnail_result, files))\<rparr>"

definition lofi_query :: pyval where
  "lofi_query = PDict [(''query'', PStr ''lofi'')]"

text \<open>What the search handler builds from an entry that has a title and nothing else.\<close>

definition no_id_entry :: pyval where
  "no_id_entry =
     PDict [(''id'', PNone), (''title'', PStr ''untitled''),
            (''url'', PStr ''https://youtu.be/None''), (''duration'', PNone),
            (''thumbnail'', PStr []), (''channel'', PStr ''Unknown'')]"

definition lofi_response :: response where
  "lofi_response =
     jsonify 200 (Json (PList
       [PDict [(''id'', PStr ''abc123''), (''title'', PStr ''Lofi beats''),
               (''url'', PStr ''https://youtu.be/abc123''), (''duration'', PNone),
               (''thumbnail'', PStr ''https://i.example/1.jpg''), (''channel'', PStr ''Chill'')],
        PDict [(''id'', PStr ''def456''), (''title'', PStr ''Rain''),
               (''url'', PStr ''https://youtu.be/def456''), (''duration'', PInt 3600),
               (''thumbnail'', PStr []), (''channel'', PStr ''Unknown'')]]))"

text \<open>The answer of \<^verbatim>\<open>/info\<close> for the video of the examples.\<close>

definition demo_detail :: response where
  "demo_detail =
     jsonify 200 (Json (PDict
       [(''id'', PStr ''abc123''), (''title'', PStr ''Lofi beats''),
        (''url'', PStr ''https://www.youtube.com/watch?v=abc123''),
        (''duration'', PInt 212), (''thumbnail'', PNone), (''channel'', PStr ''Chill''),
        (''formats'',
           PList [PDict [(''itag'', PStr ''18''), (''ext'', PStr ''mp4''),
                         (''resolution'', PStr ''audio''), (''filesize'', PInt 0),
                         (''format_note'', PStr []), (''url'', PStr ''https://cdn.example/18'')],
                  PDict [(''itag'', PStr ''22''), (''ext'', PStr ''mp4''),
                         (''resolution'', PStr ''1280x720''), (''filesize'', PInt 1000),
                         (''format_note'', PStr []),
                         (''url'', PStr ''https://cdn.example/22'')]])]))"

text \<open>
  A disk at start: a file left by an earlier run, a file outside the download directory,
  a leftover that cannot be removed, and a file one level further down.
\<close>

definition stray_world :: world where
  "stray_world =
     \<lparr>present = [''temp_downloads/abc123.mp3'', ''/etc/secrets/cookies.txt'',
                 ''temp_downloads/locked.part'', ''temp_downloads/old/frag.ts''],
      undeletable = [''temp_downloads/locked.part''], events = []\<rparr>"

text \<open>The answer to a download whose post-processing failed.\<close>

definition no_ffmpeg_response :: response where
  "no_ffmpeg_response =
     jsonify 500 (ErrorJson ''Download failed''
                    (Some (DownloadError ''ffprobe and ffmpeg not found'')))"

section \<open>Facts about the release of a file\<close>

lemma cleanup_file_returns: "fst (cleanup_file p w) = Inr ()"
  by (simp add: cleanup_file_def os_remove_def split: prod.splits sum.splits)

lemma cleanup_file_absent:
  "p \<notin> set (present w) \<Longrightarrow> cleanup_file p w = (Inr (), w)"
  by (simp add: cleanup_file_def os_path_exists_def)

lemma cleanup_file_present:
  "present (snd (cleanup_file p w)) =
     (if p \<in> set (undeletable w) then present w else removeAll p (present w))"
  by (simp add: cleanup_file_def os_path_exists_def os_remove_def logger_def logger_exc_def)

lemma cleanup_file_undeletable:
  "undeletable (snd (cleanup_file p w)) = undeletable w"
  by (simp add: cleanup_file_def os_path_exists_def os_remove_def logger_def logger_exc_def)

lemma filter_removeAll_other:
  "filter (\<lambda>q. q \<noteq> p) (removeAll p xs) = filter (\<lambda>q. q \<noteq> p) xs"
  by (induction xs) auto

section \<open>Facts about the Python operations\<close>

lemma contains_iff: "contains d s \<longleftrightarrow> (\<exists>pre post. s = pre @ d @ post)"
proof (induction s)
  case Nil
  then show ?case by auto
next
  case (Cons c cs)
  show ?case
  proof
    assume "contains d (c # cs)"
    then consider "take (length d) (c # cs) = d" | "contains d cs" by auto
    then show "\<exists>pre post. c # cs = pre @ d @ post"
    proof cases
      case 1
      then have "c # cs = [] @ d @ drop (length d) (c # cs)"
        by (metis append_Nil append_take_drop_id)
      then show ?thesis by blast
    next
      case 2
      then obtain pre post where "cs = pre @ d @ post" using Cons.IH by blast
      then have "c # cs = (c # pre) @ d @ post" by simp
      then show ?thesis by blast
    qed
  next
    assume "\<exists>pre post. c # cs = pre @ d @ post"
    then obtain pre post where eq: "c # cs = pre @ d @ post" by blast
    show "contains d (c # cs)"
    proof (cases pre)
      case Nil
      then have "take (length d) (c # cs) = d" using eq by simp
      then show ?thesis by simp
    next
      case (Cons a pre')
      then have "cs = pre' @ d @ post" using eq by simp
      then have "contains d cs" using Cons.IH by blast
      then show ?thesis by simp
    qed
  qed
qed

lemma suffix_after_last:
  "c \<in> set xs \<Longrightarrow>
     \<exists>front. xs = front @ c # rev (takeWhile (\<lambda>a. a \<noteq> c) (rev xs))"
proof -
  assume "c \<in> set xs"
  then have "dropWhile (\<lambda>a. a \<noteq> c) (rev xs) \<noteq> []" by simp
  then obtain rest where d: "dropWhile (\<lambda>a. a \<noteq> c) (rev xs) = c # rest"
    using hd_dropWhile [of "\<lambda>a. a \<noteq> c" "rev xs"] by (cases "dropWhile (\<lambda>a. a \<noteq> c) (rev xs)") auto
  have "rev xs = takeWhile (\<lambda>a. a \<noteq> c) (rev xs) @ c # rest"
    using takeWhile_dropWhile_id [of "\<lambda>a. a \<noteq> c" "rev xs"] d by simp
  then have "xs = rev rest @ c # rev (takeWhile (\<lambda>a. a \<noteq> c) (rev xs))"
    by (metis rev_append rev.simps(2) rev_rev_ident append.assoc append_Cons append_Nil)
  then show ?thesis by blast
qed

lemma base_suffix:
  "\<exists>dir. p = dir @ rev (takeWhile (\<lambda>a. a \<noteq> c) (rev p))"
proof -
  have "rev p = takeWhile (\<lambda>a. a \<noteq> c) (rev p) @ dropWhile (\<lambda>a. a \<noteq> c) (rev p)" by simp
  then have "p = rev (dropWhile (\<lambda>a. a \<noteq> c) (rev p)) @ rev (takeWhile (\<lambda>a. a \<noteq> c) (rev p))"
    by (metis rev_append rev_rev_ident)
  then show ?thesis by blast
qed

lemma splitext_shape:
  assumes "os_path_splitext p = (r, e)"
  shows "r @ e = p \<and> (e = [] \<or> (\<exists>t. e = CHR ''.'' # t \<and> CHR ''.'' \<notin> set t \<and> CHR ''/'' \<notin> set t))"
proof -
  define base where "base = rev (takeWhile (\<lambda>c. c \<noteq> CHR ''/'') (rev p))"
  define ext where "ext = rev (takeWhile (\<lambda>c. c \<noteq> CHR ''.'') (rev base))"
  define stem where "stem = take (length base - length ext - 1) base"
  show ?thesis
  proof (cases "CHR ''.'' \<in> set base \<and> list_ex (\<lambda>c. c \<noteq> CHR ''.'') stem")
    case False
    then have "os_path_splitext p = (p, [])"
      by (simp add: os_path_splitext_def Let_def base_def ext_def stem_def)
    with assms show ?thesis by simp
  next
    case True
    then have re: "r = take (length p - length ext - 1) p" "e = CHR ''.'' # ext"
      using assms by (simp_all add: os_path_splitext_def Let_def base_def ext_def stem_def)
    obtain dir where p: "p = dir @ base" using base_suffix [of p "CHR ''/''"] base_def by blast
    obtain front where b: "base = front @ CHR ''.'' # ext"
      using suffix_after_last [of "CHR ''.''" base] True ext_def by blast
    have "p = (dir @ front) @ CHR ''.'' # ext" using p b by simp
    then have cat: "r @ e = p" using re by (simp add: append_eq_conv_conj)
    have nodot: "CHR ''.'' \<notin> set ext"
      unfolding ext_def using set_takeWhileD by fastforce
    have "CHR ''/'' \<notin> set base"
      unfolding base_def using set_takeWhileD by fastforce
    then have noslash: "CHR ''/'' \<notin> set ext" using b by auto
    show ?thesis using cat re nodot noslash by simp
  qed
qed

lemma dict_get_Inr_dict: "dict_get d k dflt = Inr v \<Longrightarrow> \<exists>kvs. d = PDict kvs"
  by (cases d) (simp_all add: dict_get_def)

lemma not_valid_url:
  assumes "\<forall>netloc pre post. urlparse_netloc x url = Some netloc \<longrightarrow>
             netloc \<noteq> pre @ ''youtube.com'' @ post \<and> netloc \<noteq> pre @ ''youtu.be'' @ post"
  shows "\<not> is_valid_youtube_url x url"
proof (cases "urlparse_netloc x url")
  case None
  then show ?thesis by (simp add: is_valid_youtube_url_def)
next
  case (Some netloc)
  then have "\<not> contains ''youtube.com'' netloc" "\<not> contains ''youtu.be'' netloc"
    using assms by (auto simp: contains_iff)
  then show ?thesis using Some by (simp add: is_valid_youtube_url_def)
qed

section \<open>Facts about the download handler\<close>

lemma present_logger [simp]: "present (logger l m w) = present w"
  by (simp add: logger_def)

lemma present_logger_exc [simp]: "present (logger_exc l m e w) = present w"
  by (simp add: logger_exc_def)

lemma exists_logger [simp]: "os_path_exists (logger l m w) p = os_path_exists w p"
  by (simp add: os_path_exists_def)

lemma present_log_cookie_env [simp]: "present (log_cookie_env cp w) = present w"
  by (simp add: log_cookie_env_def Let_def)

lemma present_cookie_opts [simp]: "present (snd (cookie_opts cp w)) = present w"
  by (simp add: cookie_opts_def)

lemma download_video_valid:
  assumes "download_args data = Inr (url, format_type, itag)"
      and "url \<noteq> []" and "is_valid_youtube_url x url"
  shows "download_video x data w =
     (let cookies_path = getenv x ''COOKIES_FILE'';
          w2 = snd (cookie_opts cookies_path (log_cookie_env cookies_path w));
          ydl_opts = format_opts format_type itag
                       (fst (cookie_opts cookies_path (log_cookie_env cookies_path w)));
          w3 = snd (call_extract_info x ydl_opts url True w2)
      in case stream_result x ydl_opts format_type w3
                (fst (call_extract_info x ydl_opts url True w2)) of
           Inr response \<Rightarrow> (Inr response, w3)
         | Inl e \<Rightarrow> (Inr (jsonify 500 (ErrorJson ''Download failed'' (Some e))),
                     logger_exc ERROR ''Download failed: '' e w3))"
  using assms by (simp add: download_video_def Let_def case_prod_beta split: sum.splits)

lemma download_video_cases:
  "(\<exists>e. download_video x data w = (Inl e, w))
   \<or> download_video x data w = (Inr (jsonify 400 (ErrorJson ''Invalid YouTube URL'' None)), w)
   \<or> (\<exists>url format_type itag. download_args data = Inr (url, format_type, itag)
         \<and> url \<noteq> [] \<and> is_valid_youtube_url x url)"
  by (cases "download_args data") (auto simp: download_video_def)

lemma stream_result_file:
  assumes "stream_result x ydl_opts format_type w r = Inr resp"
  shows "\<exists>info prepared title title50.
           r = Inr info \<and> prepare_filename x ydl_opts info = Inr prepared
         \<and> subscript info ''title'' = Inr title \<and> slice50 title = Inr title50
         \<and> os_path_exists w (final_path format_type prepared)
         \<and> resp = \<lparr>status = 200,
               body = FileBody (final_path format_type prepared)
                        (if format_type = PStr ''mp3'' then ''audio/mp3'' else ''video/mp4'')
                        (py_str (py_repr x) title50 @ ''.'' @ py_str (py_repr x) format_type),
               on_close = Some (final_path format_type prepared)\<rparr>"
  using assms
  by (auto simp: stream_result_def bindE_def send_file_def split: sum.splits if_splits)

lemma extract_calls_append [simp]:
  "extract_calls (es @ fs) = extract_calls es @ extract_calls fs"
  by (induction es rule: extract_calls.induct) simp_all

lemma calls_logger [simp]: "extract_calls (events (logger l m w)) = extract_calls (events w)"
  by (simp add: logger_def)

lemma calls_logger_exc [simp]:
  "extract_calls (events (logger_exc l m e w)) = extract_calls (events w)"
  by (simp add: logger_exc_def)

lemma calls_log_cookie_env [simp]:
  "extract_calls (events (log_cookie_env cp w)) = extract_calls (events w)"
  by (simp add: log_cookie_env_def Let_def)

lemma calls_cookie_opts [simp]:
  "extract_calls (events (snd (cookie_opts cp w))) = extract_calls (events w)"
  by (simp add: cookie_opts_def)

lemma calls_call_extract_info [simp]:
  "extract_calls (events (snd (call_extract_info x opts url d w))) =
     extract_calls (events w) @ [(opts, url, d)]"
  by (simp add: call_extract_info_def split: prod.splits)

lemma present_call_extract_info [simp]:
  "present (snd (call_extract_info x opts url d w)) = snd (extract_info x opts url d (present w))"
  by (simp add: call_extract_info_def split: prod.splits)

lemma fst_call_extract_info [simp]:
  "fst (call_extract_info x opts url d w) = fst (extract_info x opts url d (present w))"
  by (simp add: call_extract_info_def split: prod.splits)

lemma undeletable_call_extract_info [simp]:
  "undeletable (snd (call_extract_info x opts url d w)) = undeletable w"
  by (simp add: call_extract_info_def split: prod.splits)

lemma format_opts_mp3:
  "format_opts (PStr ''mp3'') itag opts =
     AList.update ''postprocessors'' audio_postprocessors
       (AList.update ''format'' (PStr ''bestaudio/best'') opts)"
  by (simp add: format_opts_def)

lemma calls_download_video:
  assumes "download_args data = Inr (url, format_type, itag)"
      and "url \<noteq> []" and "is_valid_youtube_url x url"
  shows "extract_calls (events (snd (download_video x data w))) =
           extract_calls (events w) @
             [(format_opts format_type itag
                 (fst (cookie_opts (getenv x ''COOKIES_FILE'')
                        (log_cookie_env (getenv x ''COOKIES_FILE'') w))), url, True)]"
  by (simp add: download_video_valid [OF assms] Let_def split: sum.splits)

lemma download_args_dict:
  "download_args (PDict kvs) =
     (case str_strip (case map_of kvs ''url'' of None \<Rightarrow> PStr [] | Some v \<Rightarrow> v) of
        Inl e \<Rightarrow> Inl e
      | Inr url \<Rightarrow>
          Inr (url,
               (case map_of kvs ''format'' of None \<Rightarrow> PStr ''mp4'' | Some v \<Rightarrow> v),
               (case map_of kvs ''itag'' of None \<Rightarrow> PNone | Some v \<Rightarrow> v)))"
  by (simp add: download_args_def dict_get_def bindE_def split: sum.splits)

lemma no_cookiefile:
  "map_of (format_opts format_type itag base_opts) ''cookiefile'' = None"
  by (simp add: format_opts_def base_opts_def update_conv')

lemma stream_result_present:
  "present v = present v' \<Longrightarrow>
     stream_result x opts ft v r = stream_result x opts ft v' r"
  by (simp add: stream_result_def send_file_def os_path_exists_def)

lemma fst_download_video:
  assumes "download_args data = Inr (url, format_type, itag)"
      and "url \<noteq> []" and "is_valid_youtube_url x url"
  shows "fst (download_video x data w) =
     (let ydl_opts = format_opts format_type itag
                       (fst (cookie_opts (getenv x ''COOKIES_FILE'')
                              (log_cookie_env (getenv x ''COOKIES_FILE'') w)))
      in case stream_result x ydl_opts format_type
                (w\<lparr>present := snd (extract_info x ydl_opts url True (present w))\<rparr>)
                (fst (extract_info x ydl_opts url True (present w))) of
           Inr response \<Rightarrow> Inr response
         | Inl e \<Rightarrow> Inr (jsonify 500 (ErrorJson ''Download failed'' (Some e))))"
proof -
  define ydl_opts where "ydl_opts = format_opts format_type itag
                       (fst (cookie_opts (getenv x ''COOKIES_FILE'')
                              (log_cookie_env (getenv x ''COOKIES_FILE'') w)))"
  define w2 where "w2 = snd (cookie_opts (getenv x ''COOKIES_FILE'')
                              (log_cookie_env (getenv x ''COOKIES_FILE'') w))"
  have p: "present (snd (call_extract_info x ydl_opts url True w2)) =
           present (w\<lparr>present := snd (extract_info x ydl_opts url True (present w))\<rparr>)"
    by (simp add: w2_def)
  have r: "fst (call_extract_info x ydl_opts url True w2) =
           fst (extract_info x ydl_opts url True (present w))"
    by (simp add: w2_def)
  show ?thesis
    unfolding download_video_valid [OF assms] Let_def
    unfolding ydl_opts_def [symmetric] w2_def [symmetric]
    unfolding r stream_result_present [OF p]
    by (simp split: sum.splits)
qed

lemma present_download_video:
  assumes "download_args data = Inr (url, format_type, itag)"
      and "url \<noteq> []" and "is_valid_youtube_url x url"
  shows "present (snd (download_video x data w)) =
     snd (extract_info x
            (format_opts format_type itag
               (fst (cookie_opts (getenv x ''COOKIES_FILE'')
                      (log_cookie_env (getenv x ''COOKIES_FILE'') w))))
            url True (present w))"
  by (simp add: download_video_valid [OF assms] Let_def split: sum.splits)

lemma events_download_video_mono:
  assumes "download_args data = Inr (url, format_type, itag)"
      and "url \<noteq> []" and "is_valid_youtube_url x url"
  shows "set (events (log_cookie_env (getenv x ''COOKIES_FILE'') w))
           \<subseteq> set (events (snd (download_video x data w)))"
  by (auto simp: download_video_valid [OF assms] Let_def cookie_opts_def logger_def
        logger_exc_def call_extract_info_def split: sum.splits prod.splits)

section \<open>Facts about the search handler\<close>

lemma format_video_empty_thumbnails:
  "map_of kvs ''thumbnails'' = Some (PList []) \<Longrightarrow> format_video x (PDict kvs) = Inl IndexError"
  by (simp add: format_video_def dict_get_def bindE_def index_last_def)

lemma format_videos_append:
  "format_videos x (pre @ post) acc =
     (case format_videos x pre acc of Inl e \<Rightarrow> Inl e | Inr acc' \<Rightarrow> format_videos x post acc')"
  by (induction pre arbitrary: acc) (simp_all split: sum.splits)

lemma format_videos_raises:
  "v \<in> set vs \<Longrightarrow> truthy v \<Longrightarrow> format_video x v = Inl e \<Longrightarrow>
     \<exists>e'. format_videos x vs acc = Inl e'"
proof (induction vs arbitrary: acc)
  case Nil
  then show ?case by simp
next
  case (Cons a vs)
  show ?case
  proof (cases "a = v")
    case True
    then show ?thesis using Cons.prems by simp
  next
    case False
    then have "v \<in> set vs" using Cons.prems by simp
    then show ?thesis using Cons.IH Cons.prems by (simp split: sum.splits)
  qed
qed

lemma search_video_query:
  assumes "dict_get data ''query'' (PStr []) = Inr (PStr q)" and "strip q \<noteq> []"
  shows "search_video x data w =
     (let w1 = snd (call_extract_info x search_opts (''ytsearch20:'' @ strip q) False w) in
      case bindE (fst (extract_info x search_opts (''ytsearch20:'' @ strip q) False (present w)))
             (\<lambda>result. bindE (dict_get result ''entries'' (PList [])) (\<lambda>videos.
                bindE (py_iter videos) (\<lambda>vs. format_videos x vs []))) of
        Inr formatted_videos \<Rightarrow> (Inr (jsonify 200 (Json (PList formatted_videos))), w1)
      | Inl e \<Rightarrow> (Inr (jsonify 500 (ErrorJson ''Search failed'' (Some e))),
                  logger_exc ERROR ''Search failed: '' e w1))"
  using assms
  by (simp add: search_video_def bindE_def str_strip_def Let_def case_prod_beta split: sum.splits)

lemma format_video_Inr:
  assumes "format_video x v = Inr e"
  shows "\<exists>kvs. v = PDict kvs
     \<and> dict_get e ''id'' PNone = Inr (case map_of kvs ''id'' of None \<Rightarrow> PNone | Some i \<Rightarrow> i)
     \<and> dict_get e ''url'' PNone =
         Inr (PStr (''https://youtu.be/'' @
                py_str (py_repr x) (case map_of kvs ''id'' of None \<Rightarrow> PNone | Some i \<Rightarrow> i)))"
proof (cases v)
  case (PDict kvs)
  then show ?thesis
    using assms
    by (auto simp: format_video_def bindE_def dict_get_def split: sum.splits if_splits)
qed (use assms in \<open>simp_all add: format_video_def bindE_def dict_get_def\<close>)

lemma format_videos_Inr:
  "format_videos x vs acc = Inr out \<Longrightarrow>
     \<exists>new. out = acc @ new
          \<and> list_all2 (\<lambda>e v. format_video x v = Inr e) new (filter truthy vs)"
proof (induction vs arbitrary: acc)
  case Nil
  then show ?case by simp
next
  case (Cons v vs)
  show ?case
  proof (cases "truthy v")
    case False
    then show ?thesis using Cons by simp
  next
    case True
    then obtain e where e: "format_video x v = Inr e"
      and rest: "format_videos x vs (acc @ [e]) = Inr out"
      using Cons.prems by (auto split: sum.splits)
    from Cons.IH [OF rest] obtain new where
      "out = (acc @ [e]) @ new" "list_all2 (\<lambda>e v. format_video x v = Inr e) new (filter truthy vs)"
      by blast
    then have "out = acc @ (e # new)"
      "list_all2 (\<lambda>e v. format_video x v = Inr e) (e # new) (filter truthy (v # vs))"
      using True e by simp_all
    then show ?thesis by blast
  qed
qed

section \<open>Facts about the info handler\<close>

lemma surfaced_dict:
  "surfaced (PDict kvs) =
     Inr (truthy (case map_of kvs ''url'' of None \<Rightarrow> PNone | Some u \<Rightarrow> u)
          \<and> map_of kvs ''vcodec'' \<noteq> Some (PStr ''none''))"
  by (auto simp: surfaced_def bindE_def dict_get_def split: option.splits)

lemma surfaced_True:
  assumes "surfaced f = Inr True"
  shows "\<exists>kvs u. f = PDict kvs \<and> map_of kvs ''url'' = Some u \<and> truthy u
           \<and> map_of kvs ''vcodec'' \<noteq> Some (PStr ''none'')"
proof (cases f)
  case (PDict kvs)
  then show ?thesis using assms by (auto simp: surfaced_dict split: option.splits)
qed (use assms in \<open>simp_all add: surfaced_def bindE_def dict_get_def\<close>)

lemma format_entry_url:
  "format_entry (PDict kvs) = Inr e \<Longrightarrow> map_of kvs ''url'' = Some u \<Longrightarrow>
     dict_get e ''url'' PNone = Inr u"
  by (auto simp: format_entry_def bindE_def dict_get_def split: if_splits)

lemma collect_formats_Inr:
  "collect_formats fs acc = Inr out \<Longrightarrow>
     \<exists>new. out = acc @ new
          \<and> list_all2 (\<lambda>e f. format_entry f = Inr e) new (filter (\<lambda>f. surfaced f = Inr True) fs)"
proof (induction fs arbitrary: acc)
  case Nil
  then show ?case by simp
next
  case (Cons f fs)
  show ?case
  proof (cases "surfaced f = Inr True")
    case False
    then have "collect_formats fs acc = Inr out"
      using Cons.prems by (auto split: sum.splits bool.splits)
    then show ?thesis using Cons.IH False by simp
  next
    case True
    then obtain e where e: "format_entry f = Inr e"
      and rest: "collect_formats fs (acc @ [e]) = Inr out"
      using Cons.prems by (auto split: sum.splits)
    from Cons.IH [OF rest] obtain new where
      "out = (acc @ [e]) @ new"
      "list_all2 (\<lambda>e f. format_entry f = Inr e) new (filter (\<lambda>f. surfaced f = Inr True) fs)"
      by blast
    then have "out = acc @ (e # new)"
      "list_all2 (\<lambda>e f. format_entry f = Inr e) (e # new)
         (filter (\<lambda>f. surfaced f = Inr True) (f # fs))"
      using True e by simp_all
    then show ?thesis by blast
  qed
qed

lemma video_detail_formats:
  "video_detail info formats = Inr detail \<Longrightarrow>
     \<exists>kvs. detail = PDict kvs \<and> map_of kvs ''formats'' = Some (PList formats)"
  by (auto simp: video_detail_def bindE_def split: sum.splits if_splits)

lemma get_video_info_cases:
  "(\<exists>e. get_video_info x data w = (Inl e, w))
   \<or> get_video_info x data w = (Inr (jsonify 400 (ErrorJson ''Invalid YouTube URL'' None)), w)
   \<or> (\<exists>url. bindE (dict_get data ''url'' (PStr [])) str_strip = Inr url
         \<and> url \<noteq> [] \<and> is_valid_youtube_url x url
         \<and> get_video_info x data w =
             (let w1 = snd (call_extract_info x info_opts url False w) in
              case bindE (fst (extract_info x info_opts url False (present w)))
                     (\<lambda>info. bindE (dict_get info ''formats'' (PList [])) (\<lambda>fl.
                        bindE (py_iter fl) (\<lambda>fs. bindE (collect_formats fs []) (\<lambda>formats.
                          video_detail info formats)))) of
                Inr detail \<Rightarrow> (Inr (jsonify 200 (Json detail)), w1)
              | Inl e \<Rightarrow> (Inr (jsonify 500 (ErrorJson ''Could not fetch video info'' None)),
                          logger_exc ERROR ''Info fetch failed: '' e w1)))"
  by (cases "bindE (dict_get data ''url'' (PStr [])) str_strip")
     (auto simp: get_video_info_def Let_def case_prod_beta split: sum.splits)

section \<open>Facts about the sweep and the closing of a response\<close>

lemma join_child:
  assumes "child_name DOWNLOADS_DIR p = Some n"
  shows "os_path_join DOWNLOADS_DIR n = p"
proof -
  let ?k = "length DOWNLOADS_DIR + 1"
  have n: "n = drop ?k p" and pre: "take ?k p = DOWNLOADS_DIR @ ''/''"
    and ne: "n \<noteq> []" and ns: "CHR ''/'' \<notin> set n"
    using assms by (auto simp: child_name_def Let_def split: if_splits)
  have "take 1 n \<noteq> ''/''"
    using ne ns by (cases n) auto
  then have "os_path_join DOWNLOADS_DIR n = DOWNLOADS_DIR @ ''/'' @ n"
    by (simp add: os_path_join_def DOWNLOADS_DIR_def)
  also have "\<dots> = take ?k p @ drop ?k p" using pre n by simp
  finally show ?thesis by simp
qed

lemma listed_paths:
  "map (os_path_join DOWNLOADS_DIR) (List.map_filter (child_name DOWNLOADS_DIR) ps) =
     filter (\<lambda>p. child_name DOWNLOADS_DIR p \<noteq> None) ps"
proof (induction ps)
  case Nil
  then show ?case by simp
next
  case (Cons p ps)
  then show ?case
    by (cases "child_name DOWNLOADS_DIR p") (simp_all add: join_child)
qed

lemma cleanup_file_pair: "cleanup_file p w = (Inr (), snd (cleanup_file p w))"
  using cleanup_file_returns [of p w] by (simp add: prod_eq_iff)

lemma sweep_Cons:
  "sweep (n # names) w = sweep names (snd (cleanup_file (os_path_join DOWNLOADS_DIR n) w))"
proof -
  have "sweep (n # names) w =
          (case (Inr (), snd (cleanup_file (os_path_join DOWNLOADS_DIR n) w)) of
             (Inl e, w1) \<Rightarrow> (Inl e, w1)
           | (Inr u, w1) \<Rightarrow> sweep names w1)"
    by (simp only: sweep.simps cleanup_file_pair [symmetric])
  then show ?thesis by simp
qed

lemma sweep_returns: "fst (sweep names w) = Inr ()"
  by (induction names arbitrary: w) (simp_all only: sweep_Cons sweep.simps(1) fst_conv)

lemma sweep_undeletable: "undeletable (snd (sweep names w)) = undeletable w"
  by (induction names arbitrary: w)
     (simp_all only: sweep_Cons sweep.simps(1) snd_conv cleanup_file_undeletable)

lemma sweep_present:
  "present (snd (sweep names w)) =
     filter (\<lambda>p. p \<notin> set (map (os_path_join DOWNLOADS_DIR) names) \<or> p \<in> set (undeletable w))
       (present w)"
proof (induction names arbitrary: w)
  case Nil
  then show ?case by simp
next
  case (Cons n names)
  show ?case
    unfolding sweep_Cons Cons.IH cleanup_file_undeletable cleanup_file_present
    by (auto simp: removeAll_filter_not_eq intro!: filter_cong)
qed

lemma events_cleanup_file_mono:
  "set (events w) \<subseteq> set (events (snd (cleanup_file p w)))"
  by (auto simp: cleanup_file_def os_remove_def logger_def logger_exc_def)

lemma sweep_events_mono: "set (events w) \<subseteq> set (events (snd (sweep names w)))"
proof (induction names arbitrary: w)
  case Nil
  then show ?case by simp
next
  case (Cons n names)
  show ?case
    unfolding sweep_Cons
    using events_cleanup_file_mono [of w "os_path_join DOWNLOADS_DIR n"] Cons.IH by blast
qed

lemma cleanup_file_logs_failure:
  "p \<in> set (present w) \<Longrightarrow> p \<in> set (undeletable w) \<Longrightarrow>
     LogExc ERROR (''Failed to delete '' @ p @ '': '') OSError
       \<in> set (events (snd (cleanup_file p w)))"
  by (simp add: cleanup_file_def os_path_exists_def os_remove_def logger_exc_def)

lemma sweep_logs_failure:
  "p \<in> set (map (os_path_join DOWNLOADS_DIR) names) \<Longrightarrow>
   p \<in> set (present w) \<Longrightarrow> p \<in> set (undeletable w) \<Longrightarrow>
     LogExc ERROR (''Failed to delete '' @ p @ '': '') OSError \<in> set (events (snd (sweep names w)))"
proof (induction names arbitrary: w)
  case Nil
  then show ?case by simp
next
  case (Cons n names)
  let ?w1 = "snd (cleanup_file (os_path_join DOWNLOADS_DIR n) w)"
  show ?case
  proof (cases "p = os_path_join DOWNLOADS_DIR n")
    case True
    then have "LogExc ERROR (''Failed to delete '' @ p @ '': '') OSError \<in> set (events ?w1)"
      using Cons.prems cleanup_file_logs_failure by simp
    then show ?thesis
      unfolding sweep_Cons using sweep_events_mono [of ?w1 names] by blast
  next
    case False
    then have "p \<in> set (map (os_path_join DOWNLOADS_DIR) names)" using Cons.prems by simp
    moreover have "p \<in> set (present ?w1)"
      using Cons.prems False by (simp add: cleanup_file_present)
    moreover have "p \<in> set (undeletable ?w1)"
      using Cons.prems by (simp add: cleanup_file_undeletable)
    ultimately show ?thesis unfolding sweep_Cons by (rule Cons.IH)
  qed
qed

lemma undeletable_logger [simp]: "undeletable (logger l m w) = undeletable w"
  by (simp add: logger_def)

lemma undeletable_logger_exc [simp]: "undeletable (logger_exc l m e w) = undeletable w"
  by (simp add: logger_exc_def)

lemma undeletable_log_cookie_env [simp]: "undeletable (log_cookie_env cp w) = undeletable w"
  by (simp add: log_cookie_env_def Let_def)

lemma undeletable_cookie_opts [simp]: "undeletable (snd (cookie_opts cp w)) = undeletable w"
  by (simp add: cookie_opts_def)

lemma undeletable_download_video:
  "undeletable (snd (download_video x data w)) = undeletable w"
proof -
  consider (raise) e where "download_video x data w = (Inl e, w)"
    | (reject) "download_video x data w = (Inr (jsonify 400 (ErrorJson ''Invalid YouTube URL'' None)), w)"
    | (valid) url format_type itag where "download_args data = Inr (url, format_type, itag)"
        "url \<noteq> []" "is_valid_youtube_url x url"
    using download_video_cases [of x data w] by blast
  then show ?thesis
  proof cases
    case valid
    show ?thesis
      by (simp add: download_video_valid [OF valid] Let_def split: sum.splits)
  qed simp_all
qed

lemma download_response_shape:
  assumes "download_video x data w = (Inr resp, w1)"
  shows "(\<exists>path mt dn. body resp = FileBody path mt dn \<and> on_close resp = Some path
            \<and> path \<in> set (present w1))
       \<or> (on_close resp = None \<and> (\<forall>path mt dn. body resp \<noteq> FileBody path mt dn))"
proof -
  consider (raise) e where "download_video x data w = (Inl e, w)"
    | (reject) "download_video x data w = (Inr (jsonify 400 (ErrorJson ''Invalid YouTube URL'' None)), w)"
    | (valid) url format_type itag where "download_args data = Inr (url, format_type, itag)"
        "url \<noteq> []" "is_valid_youtube_url x url"
    using download_video_cases [of x data w] by blast
  then show ?thesis
  proof cases
    case raise
    then show ?thesis using assms by simp
  next
    case reject
    then show ?thesis using assms by (auto simp: jsonify_def)
  next
    case valid
    define ydl_opts where "ydl_opts = format_opts format_type itag
        (fst (cookie_opts (getenv x ''COOKIES_FILE'') (log_cookie_env (getenv x ''COOKIES_FILE'') w)))"
    define w2 where "w2 = snd (cookie_opts (getenv x ''COOKIES_FILE'')
                                 (log_cookie_env (getenv x ''COOKIES_FILE'') w))"
    define w3 where "w3 = snd (call_extract_info x ydl_opts url True w2)"
    define sr where "sr = stream_result x ydl_opts format_type w3
                            (fst (call_extract_info x ydl_opts url True w2))"
    have dv: "download_video x data w =
       (case sr of
          Inr response \<Rightarrow> (Inr response, w3)
        | Inl e \<Rightarrow> (Inr (jsonify 500 (ErrorJson ''Download failed'' (Some e))),
                    logger_exc ERROR ''Download failed: '' e w3))"
      unfolding sr_def w3_def w2_def ydl_opts_def
      using download_video_valid [OF valid, of w] by (simp only: Let_def)
    show ?thesis
    proof (cases sr)
      case (Inl e)
      then show ?thesis using dv assms by (auto simp: jsonify_def)
    next
      case (Inr response)
      then have "resp = response" "w1 = w3" using dv assms by simp_all
      then have "stream_result x ydl_opts format_type w1
                   (fst (call_extract_info x ydl_opts url True w2)) = Inr resp"
        using Inr by (simp add: sr_def)
      from stream_result_file [OF this] show ?thesis
        by (auto simp: os_path_exists_def)
    qed
  qed
qed

lemma serve_download:
  "serve x (POST_download data) w =
     (case download_video x data w of
        (Inl e, w1) \<Rightarrow> (Inl e, w1)
      | (Inr resp, w1) \<Rightarrow>
          (Inr resp, case on_close resp of None \<Rightarrow> w1 | Some p \<Rightarrow> snd (cleanup_file p w1)))"
proof -
  have "close_response resp v =
          (Inr (), case on_close resp of None \<Rightarrow> v | Some p \<Rightarrow> snd (cleanup_file p v))" for resp v
    using cleanup_file_pair by (simp add: close_response_def split: option.splits)
  then show ?thesis
    by (simp add: serve_def dispatch_def split: prod.splits sum.splits)
qed

section \<open>Release never raises and is idempotent\<close>

text \<open>
  C5. \<^verbatim>\<open>cleanup_file\<close> returns normally for every path and every state of the
  disk, also when \<^verbatim>\<open>os.remove\<close> raises. Called twice in succession on the same
  path, the second call returns normally as well; when the path is absent after the first
  call (it was removed, or was never there) the second call changes nothing at all, not
  even the log. The other paths on the disk are exactly as before, and a path whose
  removal does not raise is gone after the first call.
\<close>

theorem cleanup_file_never_raises_idempotent:
  "(let w1 = snd (cleanup_file p w); w2 = snd (cleanup_file p w1) in
      fst (cleanup_file p w) = Inr ()
    \<and> fst (cleanup_file p w1) = Inr ()
    \<and> (p \<notin> set (present w1) \<longrightarrow> cleanup_file p w1 = (Inr (), w1))
    \<and> (p \<notin> set (undeletable w) \<longrightarrow> p \<notin> set (present w1))
    \<and> filter (\<lambda>q. q \<noteq> p) (present w1) = filter (\<lambda>q. q \<noteq> p) (present w)
    \<and> filter (\<lambda>q. q \<noteq> p) (present w2) = filter (\<lambda>q. q \<noteq> p) (present w)
    \<and> undeletable w2 = undeletable w)"
proof -
  have other: "filter (\<lambda>q. q \<noteq> p) (present (snd (cleanup_file p v))) =
               filter (\<lambda>q. q \<noteq> p) (present v)" for v
    by (simp add: cleanup_file_present filter_removeAll_other)
  have gone: "p \<notin> set (undeletable w) \<longrightarrow> p \<notin> set (present (snd (cleanup_file p w)))"
    by (simp add: cleanup_file_present)
  have twice: "filter (\<lambda>q. q \<noteq> p) (present (snd (cleanup_file p (snd (cleanup_file p w))))) =
               filter (\<lambda>q. q \<noteq> p) (present w)"
    by (simp only: other)
  show ?thesis
    unfolding Let_def
    using other [of w] gone twice
    by (simp add: cleanup_file_returns cleanup_file_absent cleanup_file_undeletable)
qed

theorem cleanup_file_twice_witness:
  "''temp_downloads/abc123.mp3'' \<notin> set (undeletable demo_world)
   \<and> cleanup_file ''temp_downloads/abc123.mp3''
        (snd (cleanup_file ''temp_downloads/abc123.mp3'' demo_world))
     = (Inr (), snd (cleanup_file ''temp_downloads/abc123.mp3'' demo_world))
   \<and> present (snd (cleanup_file ''temp_downloads/abc123.mp3''
        (snd (cleanup_file ''temp_downloads/abc123.mp3'' demo_world))))
     = [''temp_downloads/other.mp4'']"
  using cleanup_file_never_raises_idempotent
          [of "''temp_downloads/abc123.mp3''" demo_world]
  by (simp add: Let_def demo_world_def cleanup_file_def os_path_exists_def os_remove_def
        logger_def)

section \<open>A URL outside the allow-list is rejected before any extraction\<close>



section \<open>The path that is streamed\<close>

text \<open>
  C4. Whenever \<^verbatim>\<open>download_video\<close> answers with a file, the path given to
  \<^verbatim>\<open>send_file\<close> (and registered for release) comes from the path \<open>prepared\<close>
  that \<^verbatim>\<open>prepare_filename\<close> returned for the fetched video: for the format
  \<^verbatim>\<open>mp3\<close> it is \<open>prepared\<close> with the extension that \<^verbatim>\<open>os.path.splitext\<close>
  finds (a dot and a dot-free, slash-free tail, or nothing) replaced by \<^verbatim>\<open>.mp3\<close>;
  for every other format it is \<open>prepared\<close> unchanged.
\<close>

theorem streamed_path_has_mp3_extension:
  assumes "download_video x data w = (Inr resp, w')"
      and "body resp = FileBody path mimetype name"
  shows "\<exists>url format_type itag ydl_opts info prepared stem ext.
           download_args data = Inr (url, format_type, itag)
         \<and> ydl_opts = format_opts format_type itag
              (fst (cookie_opts (getenv x ''COOKIES_FILE'')
                     (log_cookie_env (getenv x ''COOKIES_FILE'') w)))
         \<and> fst (extract_info x ydl_opts url True (present w)) = Inr info
         \<and> prepare_filename x ydl_opts info = Inr prepared
         \<and> os_path_splitext prepared = (stem, ext)
         \<and> stem @ ext = prepared
         \<and> (ext = [] \<or> (\<exists>t. ext = CHR ''.'' # t \<and> CHR ''.'' \<notin> set t \<and> CHR ''/'' \<notin> set t))
         \<and> path = (if format_type = PStr ''mp3'' then stem @ ''.mp3'' else prepared)
         \<and> on_close resp = Some path"
proof -
  from download_video_cases [of x data w] assms
  obtain url format_type itag where
    args: "download_args data = Inr (url, format_type, itag)"
    and ok: "url \<noteq> []" "is_valid_youtube_url x url"
    by (auto simp: jsonify_def)
  define cp where "cp = getenv x ''COOKIES_FILE''"
  define ydl_opts where
    "ydl_opts = format_opts format_type itag (fst (cookie_opts cp (log_cookie_env cp w)))"
  define w2 where "w2 = snd (cookie_opts cp (log_cookie_env cp w))"
  define w3 where "w3 = snd (call_extract_info x ydl_opts url True w2)"
  have dv: "download_video x data w =
     (case stream_result x ydl_opts format_type w3 (fst (call_extract_info x ydl_opts url True w2)) of
        Inr response \<Rightarrow> (Inr response, w3)
      | Inl e \<Rightarrow> (Inr (jsonify 500 (ErrorJson ''Download failed'' (Some e))),
                    logger_exc ERROR ''Download failed: '' e w3))"
    unfolding cp_def ydl_opts_def w2_def w3_def
    using download_video_valid [OF args ok, of w] by (simp only: Let_def)
  have sr: "stream_result x ydl_opts format_type w3 (fst (call_extract_info x ydl_opts url True w2)) = Inr resp"
    using dv assms by (auto simp: jsonify_def split: sum.splits)
  from stream_result_file [OF sr] obtain info prepared where
    i: "fst (call_extract_info x ydl_opts url True w2) = Inr info"
    and p: "prepare_filename x ydl_opts info = Inr prepared"
    and b: "body resp = FileBody (final_path format_type prepared)
                        (if format_type = PStr ''mp3'' then ''audio/mp3'' else ''video/mp4'') name"
    and c: "on_close resp = Some (final_path format_type prepared)"
    using assms(2) by auto
  obtain stem ext where se: "os_path_splitext prepared = (stem, ext)"
    by (cases "os_path_splitext prepared")
  have i': "fst (extract_info x ydl_opts url True (present w)) = Inr info"
    using i by (simp add: w2_def)
  have path: "path = final_path format_type prepared" using b assms(2) by simp
  show ?thesis
    using args i' p se splitext_shape [OF se] path c
    by (auto simp: final_path_def ydl_opts_def cp_def)
qed

theorem streamed_path_witness:
  "download_video demo_externals mp3_request empty_disk
     = (Inr mp3_response, snd (download_video demo_externals mp3_request empty_disk))
   \<and> body mp3_response = FileBody ''temp_downloads/abc123.mp3'' ''audio/mp3'' ''Lofi beats.mp3''
   \<and> prepare_filename demo_externals
        (format_opts (PStr ''mp3'') PNone base_opts) demo_info = Inr ''temp_downloads/abc123.m4a''
   \<and> os_path_splitext ''temp_downloads/abc123.m4a'' = (''temp_downloads/abc123'', ''.m4a'')
   \<and> final_path (PStr ''mp3'') ''temp/abc123.m4a'' = ''temp/abc123.mp3''
   \<and> final_path (PStr ''mp4'') ''temp/abc123.mp4'' = ''temp/abc123.mp4''
   \<and> (\<exists>url format_type itag ydl_opts info prepared stem ext.
           download_args mp3_request = Inr (url, format_type, itag)
         \<and> ydl_opts = format_opts format_type itag
              (fst (cookie_opts (getenv demo_externals ''COOKIES_FILE'')
                     (log_cookie_env (getenv demo_externals ''COOKIES_FILE'') empty_disk)))
         \<and> fst (extract_info demo_externals ydl_opts url True (present empty_disk)) = Inr info
         \<and> prepare_filename demo_externals ydl_opts info = Inr prepared
         \<and> os_path_splitext prepared = (stem, ext)
         \<and> stem @ ext = prepared
         \<and> (ext = [] \<or> (\<exists>t. ext = CHR ''.'' # t \<and> CHR ''.'' \<notin> set t \<and> CHR ''/'' \<notin> set t))
         \<and> ''temp_downloads/abc123.mp3'' =
              (if format_type = PStr ''mp3'' then stem @ ''.mp3'' else prepared)
         \<and> on_close mp3_response = Some ''temp_downloads/abc123.mp3'')"
proof -
  have "fst (download_video demo_externals mp3_request empty_disk) = Inr mp3_response"
    by code_simp
  then have run: "download_video demo_externals mp3_request empty_disk
     = (Inr mp3_response, snd (download_video demo_externals mp3_request empty_disk))"
    by (simp add: prod_eq_iff)
  have b: "body mp3_response = FileBody ''temp_downloads/abc123.mp3'' ''audio/mp3'' ''Lofi beats.mp3''"
    by (simp add: mp3_response_def)
  have p: "prepare_filename demo_externals
        (format_opts (PStr ''mp3'') PNone base_opts) demo_info = Inr ''temp_downloads/abc123.m4a''"
    by code_simp
  have s: "os_path_splitext ''temp_downloads/abc123.m4a'' = (''temp_downloads/abc123'', ''.m4a'')"
    by code_simp
  have f: "final_path (PStr ''mp3'') ''temp/abc123.m4a'' = ''temp/abc123.mp3''"
     "final_path (PStr ''mp4'') ''temp/abc123.mp4'' = ''temp/abc123.mp4''"
    by code_simp+
  show ?thesis
    using streamed_path_has_mp3_extension [OF run b] run b p s f by simp
qed

section \<open>Audio extraction has precedence over an explicit format\<close>



section \<open>A declared cookie file that does not exist\<close>

text \<open>
  C6. Let \<^verbatim>\<open>COOKIES_FILE\<close> be set to a non-empty path that is not on the disk, and
  let the request carry a valid URL. Then the handler answers exactly as it does when
  \<^verbatim>\<open>COOKIES_FILE\<close> is not set at all, and leaves the same files; it calls the
  extractor once, with options that have no \<^verbatim>\<open>cookiefile\<close> entry; and the warning
  that the cookie file was not found is in the log.
\<close>

theorem missing_cookie_file_not_fatal:
  assumes env: "getenv x ''COOKIES_FILE'' = Some cp" "cp \<noteq> []"
      and gone: "cp \<notin> set (present w)"
      and args: "download_args data = Inr (url, format_type, itag)"
      and ok: "url \<noteq> []" "is_valid_youtube_url x url"
  shows "fst (download_video x data w) =
           fst (download_video (x\<lparr>getenv := (getenv x)(''COOKIES_FILE'' := None)\<rparr>) data w)
       \<and> present (snd (download_video x data w)) =
           present (snd (download_video (x\<lparr>getenv := (getenv x)(''COOKIES_FILE'' := None)\<rparr>) data w))
       \<and> (\<exists>opts. extract_calls (events (snd (download_video x data w))) =
                    extract_calls (events w) @ [(opts, url, True)]
                \<and> map_of opts ''cookiefile'' = None)
       \<and> Log WARNING (''Cookie file not found at '' @ cp @ ''. YouTube may require login.'')
           \<in> set (events (snd (download_video x data w)))"
proof -
  define x0 where "x0 = x\<lparr>getenv := (getenv x)(''COOKIES_FILE'' := None)\<rparr>"
  have ok0: "is_valid_youtube_url x0 url"
    using ok by (simp add: is_valid_youtube_url_def x0_def)
  have co: "fst (cookie_opts (getenv x ''COOKIES_FILE'') (log_cookie_env (getenv x ''COOKIES_FILE'') w)) = base_opts"
    using gone env by (simp add: cookie_opts_def is_set_def path_of_def os_path_exists_def)
  have co0: "fst (cookie_opts (getenv x0 ''COOKIES_FILE'') (log_cookie_env (getenv x0 ''COOKIES_FILE'') w)) = base_opts"
    by (simp add: cookie_opts_def is_set_def x0_def)
  have same: "extract_info x0 = extract_info x" "prepare_filename x0 = prepare_filename x"
    "py_repr x0 = py_repr x"
    by (simp_all add: x0_def)
  have sr: "stream_result x0 opts ft v r = stream_result x opts ft v r" for opts ft v r
    by (simp add: stream_result_def same)
  have 1: "fst (download_video x data w) = fst (download_video x0 data w)"
    by (simp only: fst_download_video [OF args ok(1) ok(2)]
          fst_download_video [OF args ok(1) ok0] co co0 same sr)
  have 2: "present (snd (download_video x data w)) = present (snd (download_video x0 data w))"
    by (simp only: present_download_video [OF args ok(1) ok(2)]
          present_download_video [OF args ok(1) ok0] co co0 same)
  have 3: "extract_calls (events (snd (download_video x data w))) =
             extract_calls (events w) @ [(format_opts format_type itag base_opts, url, True)]"
    by (simp only: calls_download_video [OF args ok(1) ok(2)] co)
  have "Log WARNING (''Cookie file not found at '' @ cp @ ''. YouTube may require login.'')
          \<in> set (events (log_cookie_env (getenv x ''COOKIES_FILE'') w))"
    using env gone
    by (simp add: log_cookie_env_def Let_def is_set_def path_of_def os_path_exists_def logger_def)
  then have 4: "Log WARNING (''Cookie file not found at '' @ cp @ ''. YouTube may require login.'')
          \<in> set (events (snd (download_video x data w)))"
    using events_download_video_mono [OF args ok(1) ok(2), of w] by blast
  show ?thesis
    using 1 2 3 4 no_cookiefile [of format_type itag] unfolding x0_def by blast
qed

theorem missing_cookie_file_witness:
  "getenv cookie_externals ''COOKIES_FILE'' = Some ''/etc/secrets/cookies.txt''
   \<and> ''/etc/secrets/cookies.txt'' \<notin> set (present empty_disk)
   \<and> download_args mp3_request = Inr (''https://youtu.be/abc123'', PStr ''mp3'', PNone)
   \<and> is_valid_youtube_url cookie_externals ''https://youtu.be/abc123''
   \<and> fst (download_video cookie_externals mp3_request empty_disk) = Inr mp3_response
   \<and> fst (download_video cookie_externals mp3_request empty_disk) =
       fst (download_video
              (cookie_externals\<lparr>getenv := (getenv cookie_externals)(''COOKIES_FILE'' := None)\<rparr>)
              mp3_request empty_disk)
   \<and> Log WARNING ''Cookie file not found at /etc/secrets/cookies.txt. YouTube may require login.''
       \<in> set (events (snd (download_video cookie_externals mp3_request empty_disk)))"
proof -
  have e: "getenv cookie_externals ''COOKIES_FILE'' = Some ''/etc/secrets/cookies.txt''"
    by (simp add: cookie_externals_def)
  have n: "''/etc/secrets/cookies.txt'' \<noteq> []" by simp
  have g: "''/etc/secrets/cookies.txt'' \<notin> set (present empty_disk)"
    by (simp add: empty_disk_def)
  have a: "download_args mp3_request = Inr (''https://youtu.be/abc123'', PStr ''mp3'', PNone)"
    by code_simp
  have u: "''https://youtu.be/abc123'' \<noteq> []" by simp
  have v: "is_valid_youtube_url cookie_externals ''https://youtu.be/abc123''"
    by code_simp
  have r: "fst (download_video cookie_externals mp3_request empty_disk) = Inr mp3_response"
    by code_simp
  show ?thesis
    using missing_cookie_file_not_fatal [OF e n g a u v] e g a v r by simp
qed

section \<open>An empty thumbnails list fails the whole search\<close>



section \<open>What a search returns\<close>




section \<open>The encodings that are listed\<close>

text \<open>
  C2, as the code has it. The test of line 94 compares the \<^verbatim>\<open>vcodec\<close> field with
  the string \<^verbatim>\<open>none\<close>; a format that has no \<^verbatim>\<open>vcodec\<close> field at all passes
  it. The third format of the example video has a URL and no \<^verbatim>\<open>vcodec\<close>, and it
  is the first entry of the list that \<^verbatim>\<open>/info\<close> returns.
\<close>

theorem format_without_vcodec_counterexample:
  "demo_formats ! 2 = PDict [(''format_id'', PStr ''18''), (''ext'', PStr ''mp4''),
                             (''url'', PStr ''https://cdn.example/18'')]
   \<and> map_of [(''format_id'', PStr ''18''), (''ext'', PStr ''mp4''),
              (''url'', PStr ''https://cdn.example/18'')] ''vcodec'' = None
   \<and> fst (extract_info demo_externals info_opts ''https://youtu.be/abc123'' False []) = Inr demo_info
   \<and> dict_get demo_info ''formats'' PNone = Inr (PList demo_formats)
   \<and> fst (get_video_info demo_externals url_request empty_disk) = Inr demo_detail"
  by code_simp

text \<open>
  C2, amended. In a 200 answer of \<^verbatim>\<open>/info\<close> the encoding list holds, in order, one
  entry for each format of the extractor's result that passes the test of line 94, and
  no other entry. Each such format is a dict whose \<^verbatim>\<open>url\<close> is present and truthy
  and whose \<^verbatim>\<open>vcodec\<close> is not the string \<^verbatim>\<open>none\<close> (it may be missing), and
  the listed entry carries that URL. A format passes the test exactly when its URL is
  truthy and its \<^verbatim>\<open>vcodec\<close> is not \<^verbatim>\<open>none\<close>: so the list never includes an
  entry whose URL is absent or whose video codec is explicitly \<^verbatim>\<open>none\<close>.
\<close>

theorem listed_formats_have_url_and_vcodec_not_none:
  assumes run: "get_video_info x data w = (Inr resp, w')" and ok: "status resp = 200"
  shows "\<exists>url info fl detail out.
       bindE (dict_get data ''url'' (PStr [])) str_strip = Inr url
     \<and> fst (extract_info x info_opts url False (present w)) = Inr info
     \<and> bindE (dict_get info ''formats'' (PList [])) py_iter = Inr fl
     \<and> body resp = Json (PDict detail)
     \<and> map_of detail ''formats'' = Some (PList out)
     \<and> list_all2
         (\<lambda>entry f. \<exists>kvs u. f = PDict kvs \<and> map_of kvs ''url'' = Some u \<and> truthy u
            \<and> map_of kvs ''vcodec'' \<noteq> Some (PStr ''none'')
            \<and> format_entry f = Inr entry
            \<and> dict_get entry ''url'' PNone = Inr u)
         out (filter (\<lambda>f. surfaced f = Inr True) fl)
     \<and> (\<forall>kvs. surfaced (PDict kvs) = Inr True \<longleftrightarrow>
           truthy (case map_of kvs ''url'' of None \<Rightarrow> PNone | Some u \<Rightarrow> u)
           \<and> map_of kvs ''vcodec'' \<noteq> Some (PStr ''none''))"
proof -
  from get_video_info_cases [of x data w] run ok
  obtain url where url: "bindE (dict_get data ''url'' (PStr [])) str_strip = Inr url"
    and gv: "get_video_info x data w =
             (let w1 = snd (call_extract_info x info_opts url False w) in
              case bindE (fst (extract_info x info_opts url False (present w)))
                     (\<lambda>info. bindE (dict_get info ''formats'' (PList [])) (\<lambda>fl.
                        bindE (py_iter fl) (\<lambda>fs. bindE (collect_formats fs []) (\<lambda>formats.
                          video_detail info formats)))) of
                Inr detail \<Rightarrow> (Inr (jsonify 200 (Json detail)), w1)
              | Inl e \<Rightarrow> (Inr (jsonify 500 (ErrorJson ''Could not fetch video info'' None)),
                          logger_exc ERROR ''Info fetch failed: '' e w1))"
    by (auto simp: jsonify_def)
  let ?c = "bindE (fst (extract_info x info_opts url False (present w)))
                     (\<lambda>info. bindE (dict_get info ''formats'' (PList [])) (\<lambda>fl.
                        bindE (py_iter fl) (\<lambda>fs. bindE (collect_formats fs []) (\<lambda>formats.
                          video_detail info formats))))"
  obtain detail where c: "?c = Inr detail" and resp: "resp = jsonify 200 (Json detail)"
    using gv run ok by (cases ?c) (auto simp: jsonify_def Let_def)
  from c obtain info fl out where
    i: "fst (extract_info x info_opts url False (present w)) = Inr info"
    and fl: "bindE (dict_get info ''formats'' (PList [])) py_iter = Inr fl"
    and cf: "collect_formats fl [] = Inr out"
    and vd: "video_detail info out = Inr detail"
    by (auto simp: bindE_def split: sum.splits)
  from video_detail_formats [OF vd] obtain dkvs where
    d: "detail = PDict dkvs" "map_of dkvs ''formats'' = Some (PList out)"
    by blast
  from collect_formats_Inr [OF cf] have
    rel: "list_all2 (\<lambda>e f. format_entry f = Inr e) out (filter (\<lambda>f. surfaced f = Inr True) fl)"
    by simp
  have rel': "list_all2
         (\<lambda>entry f. \<exists>kvs u. f = PDict kvs \<and> map_of kvs ''url'' = Some u \<and> truthy u
            \<and> map_of kvs ''vcodec'' \<noteq> Some (PStr ''none'')
            \<and> format_entry f = Inr entry
            \<and> dict_get entry ''url'' PNone = Inr u)
         out (filter (\<lambda>f. surfaced f = Inr True) fl)"
    unfolding list_all2_conv_all_nth
  proof (intro conjI allI impI)
    show "length out = length (filter (\<lambda>f. surfaced f = Inr True) fl)"
      using rel by (rule list_all2_lengthD)
  next
    fix i assume i: "i < length out"
    let ?f = "filter (\<lambda>f. surfaced f = Inr True) fl ! i"
    have fe: "format_entry ?f = Inr (out ! i)"
      using rel i by (simp add: list_all2_conv_all_nth)
    have "i < length (filter (\<lambda>f. surfaced f = Inr True) fl)"
      using rel i by (simp add: list_all2_lengthD)
    then have "?f \<in> set (filter (\<lambda>f. surfaced f = Inr True) fl)" by (rule nth_mem)
    then have "surfaced ?f = Inr True" by simp
    from surfaced_True [OF this] obtain kvs u where
      k: "?f = PDict kvs" "map_of kvs ''url'' = Some u" "truthy u"
         "map_of kvs ''vcodec'' \<noteq> Some (PStr ''none'')"
      by blast
    have "dict_get (out ! i) ''url'' PNone = Inr u"
      using fe k by (auto intro: format_entry_url)
    then show "\<exists>kvs u. ?f = PDict kvs \<and> map_of kvs ''url'' = Some u \<and> truthy u
            \<and> map_of kvs ''vcodec'' \<noteq> Some (PStr ''none'')
            \<and> format_entry ?f = Inr (out ! i)
            \<and> dict_get (out ! i) ''url'' PNone = Inr u"
      using k fe by blast
  qed
  have b: "body resp = Json (PDict dkvs)" by (simp add: resp d jsonify_def)
  have s: "\<forall>kvs. surfaced (PDict kvs) = Inr True \<longleftrightarrow>
           truthy (case map_of kvs ''url'' of None \<Rightarrow> PNone | Some u \<Rightarrow> u)
           \<and> map_of kvs ''vcodec'' \<noteq> Some (PStr ''none'')"
    by (simp add: surfaced_dict)
  show ?thesis
    using url i fl b d(2) rel' s by blast
qed

theorem listed_formats_witness:
  "fst (get_video_info demo_externals url_request empty_disk) = Inr demo_detail
   \<and> status demo_detail = 200
   \<and> (\<exists>info fl detail out.
       fst (extract_info demo_externals info_opts ''https://youtu.be/abc123'' False
              (present empty_disk)) = Inr info
     \<and> bindE (dict_get info ''formats'' (PList [])) py_iter = Inr fl
     \<and> body demo_detail = Json (PDict detail)
     \<and> map_of detail ''formats'' = Some (PList out)
     \<and> length out = length (filter (\<lambda>f. surfaced f = Inr True) fl))"
proof -
  have "fst (get_video_info demo_externals url_request empty_disk) = Inr demo_detail"
    by code_simp
  then have run: "get_video_info demo_externals url_request empty_disk
      = (Inr demo_detail, snd (get_video_info demo_externals url_request empty_disk))"
    by (simp add: prod_eq_iff)
  have ok: "status demo_detail = 200" by (simp add: demo_detail_def jsonify_def)
  have u: "bindE (dict_get url_request ''url'' (PStr [])) str_strip = Inr ''https://youtu.be/abc123''"
    by code_simp
  from listed_formats_have_url_and_vcodec_not_none [OF run ok]
  obtain url info fl detail out where
    "bindE (dict_get url_request ''url'' (PStr [])) str_strip = Inr url"
    "fst (extract_info demo_externals info_opts url False (present empty_disk)) = Inr info"
    "bindE (dict_get info ''formats'' (PList [])) py_iter = Inr fl"
    "body demo_detail = Json (PDict detail)"
    "map_of detail ''formats'' = Some (PList out)"
    "list_all2
         (\<lambda>entry f. \<exists>kvs u. f = PDict kvs \<and> map_of kvs ''url'' = Some u \<and> truthy u
            \<and> map_of kvs ''vcodec'' \<noteq> Some (PStr ''none'')
            \<and> format_entry f = Inr entry
            \<and> dict_get entry ''url'' PNone = Inr u)
         out (filter (\<lambda>f. surfaced f = Inr True) fl)"
    by blast
  then have "\<exists>info fl detail out.
       fst (extract_info demo_externals info_opts ''https://youtu.be/abc123'' False
              (present empty_disk)) = Inr info
     \<and> bindE (dict_get info ''formats'' (PList [])) py_iter = Inr fl
     \<and> body demo_detail = Json (PDict detail)
     \<and> map_of detail ''formats'' = Some (PList out)
     \<and> length out = length (filter (\<lambda>f. surfaced f = Inr True) fl)"
    using u by (auto dest: list_all2_lengthD)
  moreover have "fst (get_video_info demo_externals url_request empty_disk) = Inr demo_detail"
    using run by (simp add: prod_eq_iff)
  ultimately show ?thesis using ok by blast
qed

section \<open>The sweep at start\<close>



section \<open>What a download leaves on the disk\<close>




end
